theory Spec2Isabelle
  imports Complex_Main "HOL-Library.Multiset"
begin

section \<open>Data model\<close>

text \<open>
  A cell of a data frame (or a value of the input dict of \<open>predict\<close>) is a number or a
  string. Numbers are real numbers: the rounding of 64-bit floats is not modelled.
  A row (one observation, or the dict handed to \<open>predict\<close>) maps column names to cells.
\<close>

datatype val = Num real | Str string

type_synonym row = "string \<Rightarrow> val option"

text \<open>
  The exceptions the script can raise, named by their cause. \<open>MalformedTimestamp\<close> is
  what \<open>pd.to_datetime\<close> raises; all the others are the \<open>ValueError\<close>/\<open>KeyError\<close>/
  \<open>FileNotFoundError\<close> of pandas, scikit-learn and joblib.
\<close>

datatype error =
    MalformedTimestamp
  | FileNotFound string
  | MissingColumn string
  | NotNumeric string
  | UnknownCategory string
  | EmptyInput
  | FeatureCountMismatch
  | LengthMismatch

section \<open>Feature engineering (lines 28-36)\<close>

text \<open>
  \<open>pd.to_datetime\<close> turns the \<open>date_time\<close> cell into a calendar time or raises. The parser
  is pandas's; it is the parameter \<open>to_datetime\<close> of \<open>feature_engineering\<close> below, and
  \<open>None\<close> stands for its exception.
\<close>

record datetime =
  year :: int
  month :: int
  day :: int
  hour :: int
  minute :: int
  second :: int

text \<open>
  Modelled from the spec: \<open>dt.dayofweek\<close> is pandas's accessor; its code is not part of
  this repository. Section 3: the day of the week, 0 = Monday .. 6 = Sunday. It is computed
  from the number of days between 1970-01-01 (a Thursday) and the date in the Gregorian
  calendar.
\<close>

definition days_from_civil :: "int \<Rightarrow> int \<Rightarrow> int \<Rightarrow> int" where
  "days_from_civil y m d =
     (let y' = (if m \<le> 2 then y - 1 else y);
          era = y' div 400;
          yoe = y' - era * 400;
          mp = (m + 9) mod 12;
          doy = (153 * mp + 2) div 5 + d - 1;
          doe = yoe * 365 + yoe div 4 - yoe div 100 + doy
      in era * 146097 + doe - 719468)"

definition dayofweek :: "datetime \<Rightarrow> int" where
  "dayofweek ts = (days_from_civil (year ts) (month ts) (day ts) + 3) mod 7"

text \<open>The two lambdas of lines 35 and 36.\<close>

definition is_weekend :: "int \<Rightarrow> int" where
  "is_weekend x = (if x \<ge> 5 then 1 else 0)"

definition is_rush_hour :: "int \<Rightarrow> int" where
  "is_rush_hour x = (if (7 \<le> x \<and> x \<le> 9) \<or> (16 \<le> x \<and> x \<le> 18) then 1 else 0)"

text \<open>
  Lines 29 to 36 on one row of the data frame: five columns are added. (The \<open>date_time\<close>
  cell keeps its text here; nothing reads it afterwards.)
\<close>

definition feature_engineering :: "(val \<Rightarrow> datetime option) \<Rightarrow> row \<Rightarrow> error + row" where
  "feature_engineering to_datetime r =
     (case r ''date_time'' of
        None \<Rightarrow> Inl (MissingColumn ''date_time'')
      | Some c \<Rightarrow>
          (case to_datetime c of
             None \<Rightarrow> Inl MalformedTimestamp
           | Some ts \<Rightarrow>
               Inr (r(''hour'' \<mapsto> Num (of_int (hour ts)),
                      ''day_of_week'' \<mapsto> Num (of_int (dayofweek ts)),
                      ''month'' \<mapsto> Num (of_int (month ts)),
                      ''is_weekend'' \<mapsto> Num (of_int (is_weekend (dayofweek ts))),
                      ''is_rush_hour'' \<mapsto> Num (of_int (is_rush_hour (hour ts)))))))"

section \<open>Preprocessing (lines 84-102)\<close>

text \<open>
  Selecting columns by name raises when one is absent.
\<close>

fun lookup_cols :: "string list \<Rightarrow> row \<Rightarrow> error + val list" where
  "lookup_cols [] r = Inr []"
| "lookup_cols (c # cs) r =
     (case r c of
        None \<Rightarrow> Inl (MissingColumn c)
      | Some v \<Rightarrow> (case lookup_cols cs r of Inl e \<Rightarrow> Inl e | Inr vs \<Rightarrow> Inr (v # vs)))"

text \<open>Lines 85 to 87: the ten feature columns and the target.\<close>

definition feature_columns :: "string list" where
  "feature_columns = [''holiday'', ''temp'', ''rain_1h'', ''snow_1h'', ''weather_main'',
                      ''month'', ''hour'', ''day_of_week'', ''is_weekend'', ''is_rush_hour'']"

definition features :: "row \<Rightarrow> error + row" where
  "features r =
     (case lookup_cols feature_columns r of
        Inl e \<Rightarrow> Inl e
      | Inr vs \<Rightarrow> Inr (map_of (zip feature_columns vs)))"

definition target :: "row \<Rightarrow> error + val" where
  "target r = (case r ''traffic_volume'' of None \<Rightarrow> Inl (MissingColumn ''traffic_volume'') | Some v \<Rightarrow> Inr v)"

text \<open>
  Lines 95 and 96. The column transformer reads these eight columns and drops every other
  one (\<open>remainder='drop'\<close> is its default).
\<close>

definition numeric_features :: "string list" where
  "numeric_features = [''temp'', ''rain_1h'', ''snow_1h'']"

definition categorical_features :: "string list" where
  "categorical_features = [''holiday'', ''weather_main'', ''month'', ''hour'', ''day_of_week'']"

text \<open>The scaler needs numbers (strings that spell a number are not modelled).\<close>

fun as_floats :: "string list \<Rightarrow> val list \<Rightarrow> error + real list" where
  "as_floats cs [] = Inr []"
| "as_floats cs (Num x # vs) =
     (case as_floats (tl cs) vs of Inl e \<Rightarrow> Inl e | Inr xs \<Rightarrow> Inr (x # xs))"
| "as_floats cs (Str s # vs) = Inl (NotNumeric (hd cs))"

definition numeric_values :: "row \<Rightarrow> error + real list" where
  "numeric_values r =
     (case lookup_cols numeric_features r of
        Inl e \<Rightarrow> Inl e
      | Inr vs \<Rightarrow> as_floats numeric_features vs)"

fun collect :: "('a \<Rightarrow> error + 'b) \<Rightarrow> 'a list \<Rightarrow> error + 'b list" where
  "collect f [] = Inr []"
| "collect f (x # xs) =
     (case f x of
        Inl e \<Rightarrow> Inl e
      | Inr y \<Rightarrow> (case collect f xs of Inl e \<Rightarrow> Inl e | Inr ys \<Rightarrow> Inr (y # ys)))"

definition column :: "nat \<Rightarrow> 'a list list \<Rightarrow> 'a list" where
  "column j X = map (\<lambda>r. r ! j) X"

subsection \<open>StandardScaler\<close>

text \<open>
  Modelled from the spec: \<open>StandardScaler\<close> is scikit-learn's class; its code is not part
  of this repository. Section 4.2: fit computes the mean and the standard deviation of
  every numeric field, transform standardizes as \<open>(value - mean) / std\<close>; section 7: a
  zero standard deviation is replaced by the fixed scale 1. The standard deviation is the
  square root of the variance over all rows; \<open>inverse_transform\<close> undoes the transform.
\<close>

record StandardScaler =
  means :: "real list"
  scales :: "real list"

definition mean :: "real list \<Rightarrow> real" where
  "mean xs = sum_list xs / real (length xs)"

definition variance :: "real list \<Rightarrow> real" where
  "variance xs = mean (map (\<lambda>x. (x - mean xs)\<^sup>2) xs)"

definition handle_zeros_in_scale :: "real \<Rightarrow> real" where
  "handle_zeros_in_scale s = (if s = 0 then 1 else s)"

definition StandardScaler_fit :: "real list list \<Rightarrow> StandardScaler" where
  "StandardScaler_fit X =
     \<lparr> means = map (\<lambda>j. mean (column j X)) [0..<length numeric_features],
       scales = map (\<lambda>j. handle_zeros_in_scale (sqrt (variance (column j X))))
                  [0..<length numeric_features] \<rparr>"

definition StandardScaler_transform :: "StandardScaler \<Rightarrow> real list \<Rightarrow> real list" where
  "StandardScaler_transform sc xs =
     map (\<lambda>(x, m, s). (x - m) / s) (zip xs (zip (means sc) (scales sc)))"

definition inverse_transform :: "StandardScaler \<Rightarrow> real list \<Rightarrow> real list" where
  "inverse_transform sc zs =
     map (\<lambda>(z, m, s). z * s + m) (zip zs (zip (means sc) (scales sc)))"

subsection \<open>OneHotEncoder\<close>

text \<open>
  Modelled from the spec: \<open>OneHotEncoder\<close> is scikit-learn's class; its code is not part
  of this repository. Section 4.2: fit records the distinct values of every categorical
  field, transform encodes a value as the one-hot vector over the recorded categories.
  What happens to a value that was not recorded is the encoder's \<open>handle_unknown\<close>
  parameter: \<open>'error'\<close> raises, \<open>'ignore'\<close> writes zeros. The script passes
  \<open>handle_unknown='ignore'\<close> (line 101).
  The order of the recorded categories only fixes which position of a block carries
  the 1. scikit-learn sorts them; here they stay in the order of the rows, and the example
  values below are chosen so that both orders agree.
\<close>

datatype handle_unknown = HU_error | HU_ignore

record OneHotEncoder =
  handle_unknown :: handle_unknown
  categories :: "val list list"

definition OneHotEncoder_fit :: "handle_unknown \<Rightarrow> val list list \<Rightarrow> OneHotEncoder" where
  "OneHotEncoder_fit hu X =
     \<lparr> handle_unknown = hu,
       categories = map (\<lambda>j. remdups (column j X)) [0..<length categorical_features] \<rparr>"

definition one_hot :: "val list \<Rightarrow> val \<Rightarrow> real list" where
  "one_hot cats v = map (\<lambda>c. if c = v then 1 else 0) cats"

definition encode_field :: "handle_unknown \<Rightarrow> string \<times> val list \<times> val \<Rightarrow> error + real list" where
  "encode_field hu = (\<lambda>(c, cats, v).
     if v \<in> set cats then Inr (one_hot cats v)
     else (case hu of
             HU_error \<Rightarrow> Inl (UnknownCategory c)
           | HU_ignore \<Rightarrow> Inr (replicate (length cats) 0)))"

definition OneHotEncoder_transform :: "OneHotEncoder \<Rightarrow> val list \<Rightarrow> error + real list list" where
  "OneHotEncoder_transform enc vs =
     collect (encode_field (handle_unknown enc))
       (zip categorical_features (zip (categories enc) vs))"

subsection \<open>ColumnTransformer\<close>

record ColumnTransformer =
  num :: StandardScaler
  cat :: OneHotEncoder

definition ColumnTransformer_fit :: "row list \<Rightarrow> error + ColumnTransformer" where
  "ColumnTransformer_fit rows =
     (if rows = [] then Inl EmptyInput
      else case collect numeric_values rows of
        Inl e \<Rightarrow> Inl e
      | Inr N \<Rightarrow>
          (case collect (lookup_cols categorical_features) rows of
             Inl e \<Rightarrow> Inl e
           | Inr C \<Rightarrow> Inr \<lparr> num = StandardScaler_fit N, cat = OneHotEncoder_fit HU_ignore C \<rparr>))"

definition ColumnTransformer_transform :: "ColumnTransformer \<Rightarrow> row \<Rightarrow> error + real list" where
  "ColumnTransformer_transform ct r =
     (case numeric_values r of
        Inl e \<Rightarrow> Inl e
      | Inr xs \<Rightarrow>
          (case lookup_cols categorical_features r of
             Inl e \<Rightarrow> Inl e
           | Inr vs \<Rightarrow>
               (case OneHotEncoder_transform (cat ct) vs of
                  Inl e \<Rightarrow> Inl e
                | Inr blocks \<Rightarrow> Inr (StandardScaler_transform (num ct) xs @ concat blocks))))"

text \<open>
  Reading the output vector: the numeric columns come first, then one block per
  categorical field, as long as the field has recorded categories.
\<close>

definition numeric_slice :: "real list \<Rightarrow> real list" where
  "numeric_slice x = take (length numeric_features) x"

definition one_hot_block :: "ColumnTransformer \<Rightarrow> nat \<Rightarrow> real list \<Rightarrow> real list" where
  "one_hot_block ct i x =
     take (length (categories (cat ct) ! i))
       (drop (length numeric_features + sum_list (map length (take i (categories (cat ct))))) x)"

text \<open>A row the transformer can read: its eight columns are there, the numeric ones hold numbers.\<close>

definition usable :: "row \<Rightarrow> bool" where
  "usable r = (\<not> isl (numeric_values r) \<and> \<not> isl (lookup_cols categorical_features r))"

section \<open>Regression model and pipeline (lines 104-117)\<close>

text \<open>
  A fitted regression tree: a leaf holds the predicted value, an inner node tests one
  component of the feature vector against a threshold.
\<close>

datatype tree = Leaf real | Node nat real tree tree

fun tree_predict :: "tree \<Rightarrow> real list \<Rightarrow> real" where
  "tree_predict (Leaf v) x = v"
| "tree_predict (Node f t l r) x = (if x ! f \<le> t then tree_predict l x else tree_predict r x)"

record RandomForestRegressor =
  n_features_in :: nat
  estimators :: "tree list"
  feature_importances :: "real list"

text \<open>The forest refuses a vector of the wrong length and averages its trees otherwise.\<close>

definition RandomForestRegressor_predict :: "RandomForestRegressor \<Rightarrow> real list \<Rightarrow> error + real" where
  "RandomForestRegressor_predict rf x =
     (if length x \<noteq> n_features_in rf then Inl FeatureCountMismatch
      else Inr (mean (map (\<lambda>t. tree_predict t x) (estimators rf))))"

text \<open>
  Modelled from the spec: \<open>RandomForestRegressor.fit\<close> is scikit-learn's method; its code
  is not part of this repository. Section 4.3: every tree is fit on a bootstrap resample
  of the rows (as many draws, with replacement, as there are rows), with a randomised
  search for the split at each node, and minimises the squared error, so a leaf predicts
  the mean target of its rows.
  The random draws are the parameter \<open>rng\<close> (tree, draw), the split search of a tree is
  the parameter \<open>splitter\<close> (\<open>None\<close>: no split, the node is a leaf). A split is kept when it
  tests a component that every row has and leaves rows on both sides. The script asks
  for 100 trees.
  The importance of a feature is the total reduction of the squared error over the splits
  on that feature, in all trees, and the importances are normalized so that they sum to 1.
  The reduction of a split is the summed squared error of the node's rows around their
  mean, minus that of the two sides. When no split reduces the error the total is 0 and
  every importance is 0 (what scikit-learn returns for a forest of single leaves).
\<close>

type_synonym sample = "real list \<times> real"

definition goes_left :: "nat \<Rightarrow> real \<Rightarrow> sample \<Rightarrow> bool" where
  "goes_left f t s = (fst s ! f \<le> t)"

function grow :: "(sample list \<Rightarrow> (nat \<times> real) option) \<Rightarrow> sample list \<Rightarrow> tree" where
  "grow splitter S =
     (case splitter S of
        None \<Rightarrow> Leaf (mean (map snd S))
      | Some (f, t) \<Rightarrow>
          if (\<forall>s \<in> set S. f < length (fst s))
             \<and> filter (goes_left f t) S \<noteq> [] \<and> filter (\<lambda>s. \<not> goes_left f t s) S \<noteq> []
          then Node f t (grow splitter (filter (goes_left f t) S))
                        (grow splitter (filter (\<lambda>s. \<not> goes_left f t s) S))
          else Leaf (mean (map snd S)))"
  by pat_completeness auto
termination
proof (relation "measure (\<lambda>(splitter, S). length S)", goal_cases)
  case 1
  show ?case by simp
next
  case (2 splitter S x2 f t)
  then have "0 < length (filter (\<lambda>s. \<not> goes_left f t s) S)" by simp
  then show ?case using sum_length_filter_compl [of "goes_left f t" S]
    by (simp del: length_greater_0_conv)
next
  case (3 splitter S x2 f t)
  then have "0 < length (filter (goes_left f t) S)" by simp
  then show ?case using sum_length_filter_compl [of "goes_left f t" S]
    by (simp del: length_greater_0_conv)
qed

declare grow.simps [simp del]

definition sse :: "real list \<Rightarrow> real" where
  "sse ys = sum_list (map (\<lambda>y. (y - mean ys)\<^sup>2) ys)"

function split_gains :: "(sample list \<Rightarrow> (nat \<times> real) option) \<Rightarrow> sample list \<Rightarrow> (nat \<times> real) list" where
  "split_gains splitter S =
     (case splitter S of
        None \<Rightarrow> []
      | Some (f, t) \<Rightarrow>
          if (\<forall>s \<in> set S. f < length (fst s))
             \<and> filter (goes_left f t) S \<noteq> [] \<and> filter (\<lambda>s. \<not> goes_left f t s) S \<noteq> []
          then (f, sse (map snd S) - sse (map snd (filter (goes_left f t) S))
                     - sse (map snd (filter (\<lambda>s. \<not> goes_left f t s) S)))
               # split_gains splitter (filter (goes_left f t) S)
               @ split_gains splitter (filter (\<lambda>s. \<not> goes_left f t s) S)
          else [])"
  by pat_completeness auto
termination
proof (relation "measure (\<lambda>(splitter, S). length S)", goal_cases)
  case 1
  show ?case by simp
next
  case (2 splitter S x2 f t)
  then have "0 < length (filter (\<lambda>s. \<not> goes_left f t s) S)" by simp
  then show ?case using sum_length_filter_compl [of "goes_left f t" S]
    by (simp del: length_greater_0_conv)
next
  case (3 splitter S x2 f t)
  then have "0 < length (filter (goes_left f t) S)" by simp
  then show ?case using sum_length_filter_compl [of "goes_left f t" S]
    by (simp del: length_greater_0_conv)
qed

declare split_gains.simps [simp del]

definition feature_gain :: "(nat \<times> real) list \<Rightarrow> nat \<Rightarrow> real" where
  "feature_gain gains j = sum_list (map snd (filter (\<lambda>g. fst g = j) gains))"

definition normalize_scores :: "real list \<Rightarrow> real list" where
  "normalize_scores v =
     (if sum_list v = 0 then map (\<lambda>x. 0) v else map (\<lambda>x. x / sum_list v) v)"

definition n_estimators :: nat where
  "n_estimators = 100"

definition bootstrap :: "(nat \<Rightarrow> nat \<Rightarrow> nat) \<Rightarrow> nat \<Rightarrow> sample list \<Rightarrow> sample list" where
  "bootstrap rng i S = map (\<lambda>j. S ! (rng i j mod length S)) [0..<length S]"

definition forest_gains ::
  "(nat \<Rightarrow> nat \<Rightarrow> nat) \<Rightarrow> (nat \<Rightarrow> sample list \<Rightarrow> (nat \<times> real) option) \<Rightarrow> sample list
   \<Rightarrow> (nat \<times> real) list" where
  "forest_gains rng splitter S =
     concat (map (\<lambda>i. split_gains (splitter i) (bootstrap rng i S)) [0..<n_estimators])"

definition RandomForestRegressor_fit ::
  "(nat \<Rightarrow> nat \<Rightarrow> nat) \<Rightarrow> (nat \<Rightarrow> sample list \<Rightarrow> (nat \<times> real) option)
   \<Rightarrow> real list list \<Rightarrow> real list \<Rightarrow> error + RandomForestRegressor" where
  "RandomForestRegressor_fit rng splitter X y =
     (if X = [] then Inl EmptyInput
      else if length X \<noteq> length y then Inl LengthMismatch
      else let trees = map (\<lambda>i. grow (splitter i) (bootstrap rng i (zip X y))) [0..<n_estimators];
               gains = forest_gains rng splitter (zip X y)
           in Inr \<lparr> n_features_in = length (hd X), estimators = trees,
                    feature_importances =
                      normalize_scores (map (feature_gain gains) [0..<length (hd X)]) \<rparr>)"

record Pipeline =
  preprocessor :: ColumnTransformer
  regressor :: RandomForestRegressor

text \<open>Line 111: the preprocessor is fitted on the training rows, the forest on their vectors.\<close>

definition Pipeline_fit ::
  "(nat \<Rightarrow> nat \<Rightarrow> nat) \<Rightarrow> (nat \<Rightarrow> sample list \<Rightarrow> (nat \<times> real) option)
   \<Rightarrow> row list \<Rightarrow> real list \<Rightarrow> error + Pipeline" where
  "Pipeline_fit rng splitter X_train y_train =
     (case ColumnTransformer_fit X_train of
        Inl e \<Rightarrow> Inl e
      | Inr ct \<Rightarrow>
          (case collect (ColumnTransformer_transform ct) X_train of
             Inl e \<Rightarrow> Inl e
           | Inr X \<Rightarrow>
               (case RandomForestRegressor_fit rng splitter X y_train of
                  Inl e \<Rightarrow> Inl e
                | Inr rf \<Rightarrow> Inr \<lparr> preprocessor = ct, regressor = rf \<rparr>)))"

definition Pipeline_predict :: "Pipeline \<Rightarrow> row \<Rightarrow> error + real" where
  "Pipeline_predict p r =
     (case ColumnTransformer_transform (preprocessor p) r of
        Inl e \<Rightarrow> Inl e
      | Inr x \<Rightarrow> RandomForestRegressor_predict (regressor p) x)"

text \<open>
  Lines 114 to 116: the predictions for the test rows and the root of their mean squared
  error against the test targets (which raises on no rows, or on two different lengths).
\<close>

definition mean_squared_error :: "real list \<Rightarrow> real list \<Rightarrow> error + real" where
  "mean_squared_error y_true y_pred =
     (if length y_true \<noteq> length y_pred then Inl LengthMismatch
      else if y_true = [] then Inl EmptyInput
      else Inr (mean (map (\<lambda>(a, b). (a - b)\<^sup>2) (zip y_true y_pred))))"

definition evaluate_rmse :: "Pipeline \<Rightarrow> row list \<Rightarrow> real list \<Rightarrow> error + real" where
  "evaluate_rmse m X_test y_test =
     (case collect (Pipeline_predict m) X_test of
        Inl e \<Rightarrow> Inl e
      | Inr y_pred \<Rightarrow>
          (case mean_squared_error y_test y_pred of
             Inl e \<Rightarrow> Inl e
           | Inr mse \<Rightarrow> Inr (sqrt mse)))"

section \<open>TrafficVolumePredictor (lines 128-161)\<close>

record TrafficVolumePredictor =
  model :: Pipeline
  weather_options :: "string list"
  holiday_options :: "string list"

text \<open>
  \<open>__init__\<close> loads the pickled pipeline from a path. The files are a map from paths to
  pipelines; nothing of the loaded pipeline is inspected.
\<close>

definition TrafficVolumePredictor_init :: "(string \<Rightarrow> Pipeline option) \<Rightarrow> string \<Rightarrow> error + TrafficVolumePredictor" where
  "TrafficVolumePredictor_init files model_path =
     (case files model_path of
        None \<Rightarrow> Inl (FileNotFound model_path)
      | Some m \<Rightarrow>
          Inr \<lparr> model = m,
                weather_options = [''Clear'', ''Clouds'', ''Rain'', ''Snow'', ''Mist'', ''Drizzle''],
                holiday_options = [''None'', ''Christmas'', ''New Year'', ''Thanksgiving'',
                                   ''Independence Day''] \<rparr>)"

text \<open>Python's \<open>int\<close> of a float drops the fractional part (rounds towards zero).\<close>

definition py_int :: "real \<Rightarrow> int" where
  "py_int v = (if 0 \<le> v then \<lfloor>v\<rfloor> else \<lceil>v\<rceil>)"

definition predict :: "TrafficVolumePredictor \<Rightarrow> row \<Rightarrow> error + int" where
  "predict self inputs =
     (case Pipeline_predict (model self) inputs of
        Inl e \<Rightarrow> Inl e
      | Inr prediction \<Rightarrow> Inr (max 0 (py_int prediction)))"

text \<open>
  \<open>get_feature_importance\<close>. Lines 145 to 160 build the series: the names of the output
  columns (the numeric ones, then one per recorded category, \<open>holiday_None\<close> being
  \<open>OneHot ''holiday'' (Str ''None'')\<close> here) with the importances of the forest (a series of
  two different lengths raises). Line 161 sorts it by descending score and returns the
  first ten entries.
\<close>

datatype feature_name = Plain string | OneHot string val

definition get_feature_names_out :: "OneHotEncoder \<Rightarrow> string list \<Rightarrow> error + feature_name list" where
  "get_feature_names_out ohe input_features =
     (if length input_features \<noteq> length (categories ohe) then Inl FeatureCountMismatch
      else Inr (concat (map (\<lambda>(c, cats). map (OneHot c) cats)
                         (zip input_features (categories ohe)))))"

definition sort_values_descending :: "(feature_name \<times> real) list \<Rightarrow> (feature_name \<times> real) list" where
  "sort_values_descending series = sort_key (\<lambda>(name, score). - score) series"

definition feature_importance_series :: "TrafficVolumePredictor \<Rightarrow> error + (feature_name \<times> real) list" where
  "feature_importance_series self =
     (case get_feature_names_out (cat (preprocessor (model self))) categorical_features of
        Inl e \<Rightarrow> Inl e
      | Inr cat_feature_names \<Rightarrow>
          (let all_feature_names = map Plain numeric_features @ cat_feature_names;
               importances = feature_importances (regressor (model self))
           in if length importances \<noteq> length all_feature_names then Inl LengthMismatch
              else Inr (zip all_feature_names importances)))"

definition get_feature_importance :: "TrafficVolumePredictor \<Rightarrow> error + (feature_name \<times> real) list" where
  "get_feature_importance self =
     (case feature_importance_series self of
        Inl e \<Rightarrow> Inl e
      | Inr feature_importance \<Rightarrow> Inr (take 10 (sort_values_descending feature_importance)))"

definition total_score :: "(feature_name \<times> real) list \<Rightarrow> real" where
  "total_score series = sum_list (map snd series)"

text \<open>The predictor that \<open>__init__\<close> builds once the model file holds the pipeline \<open>m\<close>.\<close>

definition loaded :: "Pipeline \<Rightarrow> TrafficVolumePredictor" where
  "loaded m =
     \<lparr> model = m,
       weather_options = [''Clear'', ''Clouds'', ''Rain'', ''Snow'', ''Mist'', ''Drizzle''],
       holiday_options = [''None'', ''Christmas'', ''New Year'', ''Thanksgiving'',
                          ''Independence Day''] \<rparr>"

text \<open>
  Lines 111, 124, 166 and 187 in a row: the pipeline is fitted and saved, the predictor
  loads the saved file, and its importances are printed.
\<close>

definition trained_feature_importance ::
  "(nat \<Rightarrow> nat \<Rightarrow> nat) \<Rightarrow> (nat \<Rightarrow> sample list \<Rightarrow> (nat \<times> real) option)
   \<Rightarrow> row list \<Rightarrow> real list \<Rightarrow> error + (feature_name \<times> real) list" where
  "trained_feature_importance rng splitter X_train y_train =
     (case Pipeline_fit rng splitter X_train y_train of
        Inl e \<Rightarrow> Inl e
      | Inr m \<Rightarrow>
          (case TrafficVolumePredictor_init [''traffic_volume_model.pkl'' \<mapsto> m]
                  ''traffic_volume_model.pkl'' of
             Inl e \<Rightarrow> Inl e
           | Inr predictor \<Rightarrow> get_feature_importance predictor))"

section \<open>Example values\<close>

text \<open>The example input of lines 169 to 180.\<close>

definition example_input :: row where
  "example_input = map_of
     [(''holiday'', Str ''None''), (''temp'', Num 22.5), (''rain_1h'', Num 0),
      (''snow_1h'', Num 0), (''weather_main'', Str ''Clouds''), (''month'', Num 6),
      (''hour'', Num 17), (''day_of_week'', Num 2), (''is_weekend'', Num 0),
      (''is_rush_hour'', Num 1)]"

text \<open>A fitted preprocessor with ten output columns, and forests of one leaf on top of it.\<close>

definition example_preprocessor :: ColumnTransformer where
  "example_preprocessor =
     \<lparr> num = \<lparr> means = [20, 0, 0], scales = [5, 1, 1] \<rparr>,
       cat = \<lparr> handle_unknown = HU_ignore,
               categories = [[Str ''None''], [Str ''Clear'', Str ''Clouds''], [Num 6],
                             [Num 8, Num 17], [Num 2]] \<rparr> \<rparr>"

definition stump_pipeline :: "nat \<Rightarrow> real \<Rightarrow> Pipeline" where
  "stump_pipeline d v =
     \<lparr> preprocessor = example_preprocessor,
       regressor = \<lparr> n_features_in = d, estimators = [Leaf v],
                     feature_importances = replicate d 0 \<rparr> \<rparr>"

definition stump_predictor :: "nat \<Rightarrow> real \<Rightarrow> TrafficVolumePredictor" where
  "stump_predictor d v =
     \<lparr> model = stump_pipeline d v,
       weather_options = [''Clear'', ''Clouds'', ''Rain'', ''Snow'', ''Mist'', ''Drizzle''],
       holiday_options = [''None'', ''Christmas'', ''New Year'', ''Thanksgiving'',
                          ''Independence Day''] \<rparr>"

text \<open>A model file whose forest expects five columns where the preprocessor gives ten.\<close>

definition example_files :: "string \<Rightarrow> Pipeline option" where
  "example_files = map_of [(''traffic_volume_model.pkl'', stump_pipeline 5 3000)]"

text \<open>One row of the data set (a Saturday, 5 pm), and a parser that knows its time.\<close>

definition example_to_datetime :: "val \<Rightarrow> datetime option" where
  "example_to_datetime c =
     (if c = Str ''2012-10-06 17:00:00''
      then Some \<lparr> year = 2012, month = 10, day = 6, hour = 17, minute = 0, second = 0 \<rparr>
      else None)"

definition example_record :: row where
  "example_record = map_of
     [(''holiday'', Str ''None''), (''temp'', Num 288.28), (''rain_1h'', Num 0),
      (''snow_1h'', Num 0), (''clouds_all'', Num 40), (''weather_main'', Str ''Clouds''),
      (''date_time'', Str ''2012-10-06 17:00:00''), (''traffic_volume'', Num 5545)]"

text \<open>Two training rows, and what the preprocessor learns from them.\<close>

definition train_rows :: "row list" where
  "train_rows =
     [map_of [(''holiday'', Str ''None''), (''temp'', Num 288), (''rain_1h'', Num 0),
              (''snow_1h'', Num 0), (''clouds_all'', Num 40), (''weather_main'', Str ''Clear''),
              (''month'', Num 10), (''hour'', Num 9), (''day_of_week'', Num 1),
              (''is_weekend'', Num 0), (''is_rush_hour'', Num 1)],
      map_of [(''holiday'', Str ''None''), (''temp'', Num 292), (''rain_1h'', Num 0),
              (''snow_1h'', Num 0), (''clouds_all'', Num 75), (''weather_main'', Str ''Clouds''),
              (''month'', Num 10), (''hour'', Num 17), (''day_of_week'', Num 5),
              (''is_weekend'', Num 1), (''is_rush_hour'', Num 1)]]"

definition train_preprocessor :: ColumnTransformer where
  "train_preprocessor =
     \<lparr> num = \<lparr> means = [290, 0, 0], scales = [2, 1, 1] \<rparr>,
       cat = \<lparr> handle_unknown = HU_ignore,
               categories = [[Str ''None''], [Str ''Clear'', Str ''Clouds''], [Num 10],
                             [Num 9, Num 17], [Num 1, Num 5]] \<rparr> \<rparr>"

text \<open>Draws and a split search (always the first column at 0) for a training run.\<close>

definition example_rng :: "nat \<Rightarrow> nat \<Rightarrow> nat" where
  "example_rng i j = i + j"

definition example_splitter :: "nat \<Rightarrow> sample list \<Rightarrow> (nat \<times> real) option" where
  "example_splitter i S = Some (0, 0)"

text \<open>
  A training run with thirteen output columns: two rows that differ in every feature,
  targets 4000 and 6000, every resample being the two rows, and tree \<open>i\<close> splitting once,
  on column 0 for the first tree, column 1 for the next two, and so on up to column 12 for
  thirteen trees (the last nine trees do not split). The fitted preprocessor, the vectors of
  the two rows, the fitted pipeline, its series of importances and the ten entries that
  \<open>get_feature_importance\<close> returns.
\<close>

definition wide_rows :: "row list" where
  "wide_rows =
     [map_of [(''holiday'', Str ''Labor Day''), (''temp'', Num 288), (''rain_1h'', Num 0),
              (''snow_1h'', Num 0), (''clouds_all'', Num 40), (''weather_main'', Str ''Clear''),
              (''month'', Num 9), (''hour'', Num 9), (''day_of_week'', Num 0),
              (''is_weekend'', Num 0), (''is_rush_hour'', Num 1)],
      map_of [(''holiday'', Str ''None''), (''temp'', Num 292), (''rain_1h'', Num 2),
              (''snow_1h'', Num 4), (''clouds_all'', Num 75), (''weather_main'', Str ''Clouds''),
              (''month'', Num 10), (''hour'', Num 17), (''day_of_week'', Num 5),
              (''is_weekend'', Num 1), (''is_rush_hour'', Num 1)]]"

definition wide_preprocessor :: ColumnTransformer where
  "wide_preprocessor =
     \<lparr> num = \<lparr> means = [290, 1, 2], scales = [2, 1, 2] \<rparr>,
       cat = \<lparr> handle_unknown = HU_ignore,
               categories = [[Str ''Labor Day'', Str ''None''], [Str ''Clear'', Str ''Clouds''],
                             [Num 9, Num 10], [Num 9, Num 17], [Num 0, Num 5]] \<rparr> \<rparr>"

definition wide_X :: "real list list" where
  "wide_X = [[- 1, - 1, - 1, 1, 0, 1, 0, 1, 0, 1, 0, 1, 0],
             [1, 1, 1, 0, 1, 0, 1, 0, 1, 0, 1, 0, 1]]"

definition wide_rng :: "nat \<Rightarrow> nat \<Rightarrow> nat" where
  "wide_rng i j = j"

definition wide_splitter :: "nat \<Rightarrow> sample list \<Rightarrow> (nat \<times> real) option" where
  "wide_splitter i S =
     (if i < 91
      then Some (length (filter (\<lambda>b. b \<le> i) [1, 3, 6, 10, 15, 21, 28, 36, 45, 55, 66, 78]), 1 / 2)
      else None)"

definition wide_model :: Pipeline where
  "wide_model =
     \<lparr> preprocessor = wide_preprocessor,
       regressor =
         \<lparr> n_features_in = 13,
           estimators = map (\<lambda>i. grow (wide_splitter i)
                                (bootstrap wide_rng i (zip wide_X [4000, 6000])))
                          [0..<n_estimators],
           feature_importances =
             [1 / 91, 2 / 91, 3 / 91, 4 / 91, 5 / 91, 6 / 91, 7 / 91, 8 / 91, 9 / 91, 10 / 91,
              11 / 91, 12 / 91, 13 / 91] \<rparr> \<rparr>"

definition wide_series :: "(feature_name \<times> real) list" where
  "wide_series =
     [(Plain ''temp'', 1 / 91), (Plain ''rain_1h'', 2 / 91), (Plain ''snow_1h'', 3 / 91),
      (OneHot ''holiday'' (Str ''Labor Day''), 4 / 91), (OneHot ''holiday'' (Str ''None''), 5 / 91),
      (OneHot ''weather_main'' (Str ''Clear''), 6 / 91),
      (OneHot ''weather_main'' (Str ''Clouds''), 7 / 91),
      (OneHot ''month'' (Num 9), 8 / 91), (OneHot ''month'' (Num 10), 9 / 91),
      (OneHot ''hour'' (Num 9), 10 / 91), (OneHot ''hour'' (Num 17), 11 / 91),
      (OneHot ''day_of_week'' (Num 0), 12 / 91), (OneHot ''day_of_week'' (Num 5), 13 / 91)]"

definition wide_top :: "(feature_name \<times> real) list" where
  "wide_top =
     [(OneHot ''day_of_week'' (Num 5), 13 / 91), (OneHot ''day_of_week'' (Num 0), 12 / 91),
      (OneHot ''hour'' (Num 17), 11 / 91), (OneHot ''hour'' (Num 9), 10 / 91),
      (OneHot ''month'' (Num 10), 9 / 91), (OneHot ''month'' (Num 9), 8 / 91),
      (OneHot ''weather_main'' (Str ''Clouds''), 7 / 91),
      (OneHot ''weather_main'' (Str ''Clear''), 6 / 91),
      (OneHot ''holiday'' (Str ''None''), 5 / 91), (OneHot ''holiday'' (Str ''Labor Day''), 4 / 91)]"

text \<open>What \<open>get_feature_importance\<close> returns after training on \<open>train_rows\<close> with equal targets.\<close>

definition zero_top :: "(feature_name \<times> real) list" where
  "zero_top =
     [(Plain ''temp'', 0), (Plain ''rain_1h'', 0), (Plain ''snow_1h'', 0),
      (OneHot ''holiday'' (Str ''None''), 0), (OneHot ''weather_main'' (Str ''Clear''), 0),
      (OneHot ''weather_main'' (Str ''Clouds''), 0), (OneHot ''month'' (Num 10), 0),
      (OneHot ''hour'' (Num 9), 0), (OneHot ''hour'' (Num 17), 0),
      (OneHot ''day_of_week'' (Num 1), 0)]"

section \<open>Properties of the prediction\<close>

lemma example_transform:
  "ColumnTransformer_transform example_preprocessor example_input
     = Inr [1 / 2, 0, 0, 1, 0, 1, 1, 0, 1, 1]"
  by (simp add: ColumnTransformer_transform_def example_preprocessor_def example_input_def
      numeric_values_def numeric_features_def categorical_features_def
      OneHotEncoder_transform_def encode_field_def one_hot_def StandardScaler_transform_def)

lemma stump_predict: "Pipeline_predict (stump_pipeline 10 v) example_input = Inr v"
  by (simp add: Pipeline_predict_def stump_pipeline_def example_transform
      RandomForestRegressor_predict_def mean_def)

lemma max_py_int: "max 0 (py_int v) = max 0 \<lfloor>v\<rfloor>"
  by (auto simp: py_int_def max_def) linarith+

text \<open>
  C1. Whenever the pipeline yields a raw value for the input, of either sign, \<open>predict\<close>
  returns an integer that is at least 0; and no integer that \<open>predict\<close> returns is
  negative. (On an input the pipeline raises on, \<open>predict\<close> raises too.)
\<close>

theorem predict_nonneg:
  "(\<forall>v. Pipeline_predict (model self) inputs = Inr v
        \<longrightarrow> (\<exists>n. predict self inputs = Inr n \<and> 0 \<le> n))
   \<and> (\<forall>n. predict self inputs = Inr n \<longrightarrow> 0 \<le> n)"
  by (auto simp: predict_def split: sum.splits)

theorem predict_nonneg_witness:
  "Pipeline_predict (model (stump_predictor 10 (- 5 / 2))) example_input = Inr (- 5 / 2)
   \<and> predict (stump_predictor 10 (- 5 / 2)) example_input = Inr 0"
  using predict_nonneg [of "stump_predictor 10 (- 5 / 2)" example_input]
  by (simp add: predict_def stump_predictor_def stump_predict py_int_def)

text \<open>
  C2. The claim asks for \<open>max(0, round(v))\<close>. The code takes \<open>int(v)\<close>, which drops the
  fractional part: at the raw value 2.7 it returns 2, where rounding gives 3.
\<close>

theorem predict_round_counterexample:
  "Pipeline_predict (model (stump_predictor 10 (27 / 10))) example_input = Inr (27 / 10)
   \<and> predict (stump_predictor 10 (27 / 10)) example_input = Inr 2
   \<and> predict (stump_predictor 10 (27 / 10)) example_input \<noteq> Inr (max 0 (round (27 / 10 :: real)))"
  by (simp add: predict_def stump_predictor_def stump_predict py_int_def round_def)

text \<open>
  C2, amended. The integer returned by \<open>predict\<close> is \<open>max(0, floor(v))\<close> for the raw
  value \<open>v\<close> of the pipeline: the fractional part is dropped, not rounded.
\<close>

theorem predict_floor:
  "Pipeline_predict (model self) inputs = Inr v \<Longrightarrow> predict self inputs = Inr (max 0 \<lfloor>v\<rfloor>)"
  by (simp add: predict_def max_py_int)

theorem predict_floor_witness:
  "Pipeline_predict (model (stump_predictor 10 (27 / 10))) example_input = Inr (27 / 10)
   \<and> predict (stump_predictor 10 (27 / 10)) example_input = Inr 2"
  using predict_floor [of "stump_predictor 10 (27 / 10)" example_input "27 / 10"]
  by (simp add: stump_predictor_def stump_predict)

text \<open>
  C6. The claim asks \<open>__init__\<close> to reject an artifact whose preprocessor and forest
  disagree on the number of columns. \<open>__init__\<close> only loads the file: here the
  preprocessor gives ten columns, the forest expects five, and the predictor is built.
\<close>

theorem init_mismatch_counterexample:
  "ColumnTransformer_transform (preprocessor (stump_pipeline 5 3000)) example_input
     = Inr [1 / 2, 0, 0, 1, 0, 1, 1, 0, 1, 1]
   \<and> n_features_in (regressor (stump_pipeline 5 3000)) = 5
   \<and> TrafficVolumePredictor_init example_files ''traffic_volume_model.pkl''
     = Inr (stump_predictor 5 3000)"
  by (simp add: TrafficVolumePredictor_init_def example_files_def stump_predictor_def
      stump_pipeline_def example_transform)

text \<open>
  C6, amended. \<open>__init__\<close> accepts every artifact that can be loaded and checks no
  dimension; with an artifact whose forest expects another number of columns than the
  preprocessor gives, each later call of \<open>predict\<close> fails with the forest's own
  feature-count error.
\<close>

theorem init_accepts:
  "files model_path = Some m \<Longrightarrow>
     (\<exists>self. TrafficVolumePredictor_init files model_path = Inr self \<and> model self = m
        \<and> (\<forall>inputs x. ColumnTransformer_transform (preprocessor m) inputs = Inr x
               \<and> length x \<noteq> n_features_in (regressor m)
             \<longrightarrow> predict self inputs = Inl FeatureCountMismatch))"
  by (auto simp: TrafficVolumePredictor_init_def predict_def Pipeline_predict_def
      RandomForestRegressor_predict_def)

theorem init_accepts_witness:
  "example_files ''traffic_volume_model.pkl'' = Some (stump_pipeline 5 3000)
   \<and> TrafficVolumePredictor_init example_files ''traffic_volume_model.pkl''
       = Inr (stump_predictor 5 3000)
   \<and> predict (stump_predictor 5 3000) example_input = Inl FeatureCountMismatch"
  using init_accepts [of example_files "''traffic_volume_model.pkl''" "stump_pipeline 5 3000"]
  by (simp add: example_files_def TrafficVolumePredictor_init_def stump_predictor_def
      predict_def Pipeline_predict_def RandomForestRegressor_predict_def
      example_transform stump_pipeline_def)

section \<open>Independence of the cloud coverage\<close>

lemma lookup_cols_cong:
  "(\<forall>c \<in> set cs. r c = r' c) \<Longrightarrow> lookup_cols cs r = lookup_cols cs r'"
  by (induction cs) (auto split: option.splits sum.splits)

lemma transform_cong:
  assumes "\<forall>c \<in> set numeric_features \<union> set categorical_features. r c = r' c"
  shows "ColumnTransformer_transform ct r = ColumnTransformer_transform ct r'"
proof -
  have n: "lookup_cols numeric_features r = lookup_cols numeric_features r'"
    using assms by (intro lookup_cols_cong) simp
  have c: "lookup_cols categorical_features r = lookup_cols categorical_features r'"
    using assms by (intro lookup_cols_cong) simp
  show ?thesis
    unfolding ColumnTransformer_transform_def numeric_values_def n c ..
qed

lemma collect_cong:
  "list_all2 (\<lambda>a b. f a = f b) xs ys \<Longrightarrow> collect f xs = collect f ys"
  by (induction xs ys rule: list_all2_induct) (auto split: sum.splits)

text \<open>Training rows that differ in \<open>clouds_all\<close> only give the same fitted pipeline.\<close>

lemma fit_ignores_clouds_all:
  assumes "list_all2 (\<lambda>r r'. \<forall>k. k \<noteq> ''clouds_all'' \<longrightarrow> r k = r' k) X X'"
  shows "Pipeline_fit rng splitter X y = Pipeline_fit rng splitter X' y"
proof -
  have used: "\<forall>c \<in> set numeric_features \<union> set categorical_features. r c = r' c"
    if "\<forall>k. k \<noteq> ''clouds_all'' \<longrightarrow> r k = r' k" for r r' :: row
    using that by (auto simp: numeric_features_def categorical_features_def)
  have e: "(X = []) = (X' = [])"
    using assms by (auto dest: list_all2_lengthD)
  have n: "collect numeric_values X = collect numeric_values X'"
    by (rule collect_cong, rule list_all2_mono [OF assms])
       (use used in \<open>auto simp: numeric_values_def intro!: arg_cong [where f = "case_sum _ _"] lookup_cols_cong\<close>)
  have c: "collect (lookup_cols categorical_features) X = collect (lookup_cols categorical_features) X'"
    by (rule collect_cong, rule list_all2_mono [OF assms]) (use used in \<open>auto intro!: lookup_cols_cong\<close>)
  have f: "ColumnTransformer_fit X = ColumnTransformer_fit X'"
    by (simp add: ColumnTransformer_fit_def e n c split: sum.splits)
  have t: "collect (ColumnTransformer_transform ct) X = collect (ColumnTransformer_transform ct) X'" for ct
    by (rule collect_cong, rule list_all2_mono [OF assms]) (use used in \<open>auto intro!: transform_cong\<close>)
  show ?thesis
    by (simp add: Pipeline_fit_def f t split: sum.splits)
qed

text \<open>
  C10. Two rows that agree on every column but \<open>clouds_all\<close> have the same feature
  columns, the same raw value of the pipeline and the same result of \<open>predict\<close> (the
  same integer, or the same error).
\<close>

theorem clouds_all_ignored:
  assumes "\<forall>k. k \<noteq> ''clouds_all'' \<longrightarrow> r k = r' k"
  shows "features r = features r'
       \<and> Pipeline_predict m r = Pipeline_predict m r'
       \<and> predict self r = predict self r'"
proof -
  have "\<forall>c \<in> set numeric_features \<union> set categorical_features. r c = r' c"
    using assms by (auto simp: numeric_features_def categorical_features_def)
  then have "ColumnTransformer_transform ct r = ColumnTransformer_transform ct r'" for ct
    by (rule transform_cong)
  moreover have "lookup_cols feature_columns r = lookup_cols feature_columns r'"
    using assms by (intro lookup_cols_cong) (auto simp: feature_columns_def)
  ultimately show ?thesis
    by (simp add: Pipeline_predict_def predict_def features_def)
qed

theorem clouds_all_ignored_witness:
  "example_input ''clouds_all'' \<noteq> (example_input(''clouds_all'' \<mapsto> Num 90)) ''clouds_all''
   \<and> predict (stump_predictor 10 3000) example_input
       = predict (stump_predictor 10 3000) (example_input(''clouds_all'' \<mapsto> Num 90))
   \<and> predict (stump_predictor 10 3000) example_input = Inr 3000"
proof -
  have h: "\<forall>k. k \<noteq> ''clouds_all'' \<longrightarrow> example_input k = (example_input(''clouds_all'' \<mapsto> Num 90)) k"
    by simp
  note same = clouds_all_ignored [OF h, where self = "stump_predictor 10 3000"
      and m = "stump_pipeline 10 3000", THEN conjunct2, THEN conjunct2]
  have result: "predict (stump_predictor 10 3000) example_input = Inr 3000"
    by (simp add: predict_def stump_predictor_def stump_predict py_int_def)
  have differ: "example_input ''clouds_all'' \<noteq> (example_input(''clouds_all'' \<mapsto> Num 90)) ''clouds_all''"
    by (simp add: example_input_def)
  from differ same result show ?thesis
    by (intro conjI)
qed

section \<open>Derived features\<close>

lemma dayofweek_range: "0 \<le> dayofweek ts \<and> dayofweek ts \<le> 6"
  by (simp add: dayofweek_def) 

text \<open>
  C4. On every row whose timestamp parses, the derived \<open>is_weekend\<close> and \<open>is_rush_hour\<close>
  are 0 or 1; \<open>is_weekend\<close> is 1 exactly when \<open>day_of_week\<close> is 5 or 6, and
  \<open>is_rush_hour\<close> is 1 exactly when \<open>hour\<close> is one of 7, 8, 9, 16, 17, 18.
\<close>

theorem weekend_rush_hour_flags:
  assumes "feature_engineering to_datetime r = Inr r'"
  shows "r' ''is_weekend'' \<in> {Some (Num 0), Some (Num 1)}
       \<and> r' ''is_rush_hour'' \<in> {Some (Num 0), Some (Num 1)}
       \<and> (r' ''is_weekend'' = Some (Num 1)
            \<longleftrightarrow> r' ''day_of_week'' \<in> {Some (Num 5), Some (Num 6)})
       \<and> (r' ''is_rush_hour'' = Some (Num 1)
            \<longleftrightarrow> r' ''hour'' \<in> {Some (Num 7), Some (Num 8), Some (Num 9),
                               Some (Num 16), Some (Num 17), Some (Num 18)})"
proof -
  from assms obtain c ts where ts: "r ''date_time'' = Some c" "to_datetime c = Some ts"
    and r': "r' = r(''hour'' \<mapsto> Num (of_int (hour ts)),
                      ''day_of_week'' \<mapsto> Num (of_int (dayofweek ts)),
                      ''month'' \<mapsto> Num (of_int (month ts)),
                      ''is_weekend'' \<mapsto> Num (of_int (is_weekend (dayofweek ts))),
                      ''is_rush_hour'' \<mapsto> Num (of_int (is_rush_hour (hour ts))))"
    by (auto simp: feature_engineering_def split: option.splits)
  have w: "is_weekend (dayofweek ts) \<in> {0, 1}
      \<and> (is_weekend (dayofweek ts) = 1 \<longleftrightarrow> dayofweek ts = 5 \<or> dayofweek ts = 6)"
    using dayofweek_range [of ts] by (auto simp: is_weekend_def)
  have q: "is_rush_hour (hour ts) \<in> {0, 1}
      \<and> (is_rush_hour (hour ts) = 1 \<longleftrightarrow> hour ts \<in> {7, 8, 9, 16, 17, 18})"
    by (auto simp: is_rush_hour_def)
  show ?thesis
    using w q by (auto simp: r')
qed

theorem weekend_rush_hour_flags_witness:
  "feature_engineering example_to_datetime example_record
     = Inr (example_record(''hour'' \<mapsto> Num 17, ''day_of_week'' \<mapsto> Num 5, ''month'' \<mapsto> Num 10,
                           ''is_weekend'' \<mapsto> Num 1, ''is_rush_hour'' \<mapsto> Num 1))"
  using weekend_rush_hour_flags [of example_to_datetime example_record]
  by (simp add: feature_engineering_def example_to_datetime_def example_record_def
      dayofweek_def days_from_civil_def is_weekend_def is_rush_hour_def Let_def)

section \<open>Properties of the preprocessing\<close>

lemma collect_InrD: "collect f xs = Inr ys \<Longrightarrow> list_all2 (\<lambda>x y. f x = Inr y) xs ys"
  by (induction xs arbitrary: ys) (auto split: sum.splits)

lemma collect_InrI: "list_all2 (\<lambda>x y. f x = Inr y) xs ys \<Longrightarrow> collect f xs = Inr ys"
  by (induction xs ys rule: list_all2_induct) auto

lemma collect_Inr_iff: "collect f xs = Inr ys \<longleftrightarrow> list_all2 (\<lambda>x y. f x = Inr y) xs ys"
  using collect_InrD collect_InrI by blast

lemma lookup_cols_InrD: "lookup_cols cs r = Inr vs \<Longrightarrow> map r cs = map Some vs"
  by (induction cs arbitrary: vs) (auto split: sum.splits option.splits)

lemma lookup_cols_InrI: "map r cs = map Some vs \<Longrightarrow> lookup_cols cs r = Inr vs"
  by (induction cs arbitrary: vs) auto

lemma lookup_cols_Inr_iff: "lookup_cols cs r = Inr vs \<longleftrightarrow> map r cs = map Some vs"
  using lookup_cols_InrD lookup_cols_InrI by blast

lemma as_floats_InrD: "as_floats cs vs = Inr xs \<Longrightarrow> vs = map Num xs"
  by (induction cs vs arbitrary: xs rule: as_floats.induct) (auto split: sum.splits)

lemma as_floats_InrI: "as_floats cs (map Num xs) = Inr xs"
  by (induction xs arbitrary: cs) auto

lemma as_floats_Inr_iff: "as_floats cs vs = Inr xs \<longleftrightarrow> vs = map Num xs"
  using as_floats_InrD as_floats_InrI by blast

lemma numeric_values_Inr_iff:
  "numeric_values r = Inr xs \<longleftrightarrow> map r numeric_features = map (\<lambda>x. Some (Num x)) xs"
proof
  assume "numeric_values r = Inr xs"
  then obtain vs where "lookup_cols numeric_features r = Inr vs" "as_floats numeric_features vs = Inr xs"
    by (auto simp: numeric_values_def split: sum.splits)
  then show "map r numeric_features = map (\<lambda>x. Some (Num x)) xs"
    by (simp add: lookup_cols_Inr_iff as_floats_Inr_iff)
next
  assume "map r numeric_features = map (\<lambda>x. Some (Num x)) xs"
  then have "lookup_cols numeric_features r = Inr (map Num xs)"
    by (simp add: lookup_cols_Inr_iff)
  then show "numeric_values r = Inr xs"
    by (simp add: numeric_values_def as_floats_InrI)
qed

lemma numeric_values_length: "numeric_values r = Inr xs \<Longrightarrow> length xs = length numeric_features"
  by (auto simp: numeric_values_Inr_iff dest: map_eq_imp_length_eq)

lemma lookup_cols_length: "lookup_cols cs r = Inr vs \<Longrightarrow> length vs = length cs"
  by (auto simp: lookup_cols_Inr_iff dest: map_eq_imp_length_eq)

lemma ColumnTransformer_fit_Inr:
  assumes "ColumnTransformer_fit rows = Inr ct"
  obtains N C where "rows \<noteq> []" "collect numeric_values rows = Inr N"
    "collect (lookup_cols categorical_features) rows = Inr C"
    "num ct = StandardScaler_fit N" "cat ct = OneHotEncoder_fit HU_ignore C"
  using assms by (auto simp: ColumnTransformer_fit_def split: if_splits sum.splits)

lemma encode_field_ignore:
  "encode_field HU_ignore (c, cats, v)
     = Inr (if v \<in> set cats then one_hot cats v else replicate (length cats) 0)"
  by (simp add: encode_field_def)

lemma OneHotEncoder_transform_ignore:
  assumes "handle_unknown enc = HU_ignore"
  shows "OneHotEncoder_transform enc vs
     = Inr (map (\<lambda>(c, cats, v). if v \<in> set cats then one_hot cats v else replicate (length cats) 0)
              (zip categorical_features (zip (categories enc) vs)))"
  unfolding OneHotEncoder_transform_def collect_Inr_iff assms
  by (simp add: list_all2_conv_all_nth encode_field_ignore split_beta)

lemma concat_block:
  "i < length bs \<Longrightarrow>
     take (length (bs ! i)) (drop (sum_list (map length (take i bs))) (concat bs)) = bs ! i"
proof (induction bs arbitrary: i)
  case Nil
  then show ?case by simp
next
  case (Cons b bs)
  then show ?case by (cases i) auto
qed

lemma usableE:
  assumes "usable r"
  obtains xs vs where "numeric_values r = Inr xs" "lookup_cols categorical_features r = Inr vs"
  using assms unfolding usable_def by (cases "numeric_values r"; cases "lookup_cols categorical_features r") auto

lemma collect_total:
  "(\<And>x. x \<in> set xs \<Longrightarrow> \<not> isl (f x)) \<Longrightarrow> \<exists>ys. collect f xs = Inr ys"
proof (induction xs)
  case Nil
  then show ?case by simp
next
  case (Cons x xs)
  then obtain ys where "collect f xs = Inr ys" by auto
  moreover obtain y where "f x = Inr y" using Cons.prems [of x] by (cases "f x") auto
  ultimately show ?case by simp
qed

lemma collect_member:
  "collect f xs = Inr ys \<Longrightarrow> x \<in> set xs \<Longrightarrow> \<exists>y. f x = Inr y"
  by (auto simp: collect_Inr_iff list_all2_conv_all_nth in_set_conv_nth)

lemma fit_total:
  assumes "rows \<noteq> []" "\<forall>r \<in> set rows. usable r"
  shows "\<exists>ct. ColumnTransformer_fit rows = Inr ct"
proof -
  obtain N where "collect numeric_values rows = Inr N"
    using collect_total [of rows numeric_values] assms(2) by (auto simp: usable_def)
  moreover obtain C where "collect (lookup_cols categorical_features) rows = Inr C"
    using collect_total [of rows "lookup_cols categorical_features"] assms(2) by (auto simp: usable_def)
  ultimately show ?thesis using assms(1) by (simp add: ColumnTransformer_fit_def)
qed

lemma fit_rows_usable:
  assumes "ColumnTransformer_fit rows = Inr ct" "r \<in> set rows"
  shows "usable r"
proof -
  from assms(1) obtain N C where N: "collect numeric_values rows = Inr N"
    and C: "collect (lookup_cols categorical_features) rows = Inr C"
    by (rule ColumnTransformer_fit_Inr)
  from collect_member [OF N assms(2)] collect_member [OF C assms(2)]
  show ?thesis by (auto simp: usable_def)
qed

lemma fit_handle_unknown:
  "ColumnTransformer_fit rows = Inr ct \<Longrightarrow> handle_unknown (cat ct) = HU_ignore"
  by (erule ColumnTransformer_fit_Inr) (simp add: OneHotEncoder_fit_def)

lemma transform_ignore:
  assumes "handle_unknown (cat ct) = HU_ignore"
    and "numeric_values r = Inr xs" and "lookup_cols categorical_features r = Inr vs"
  shows "ColumnTransformer_transform ct r
     = Inr (StandardScaler_transform (num ct) xs
            @ concat (map (\<lambda>(c, cats, v). if v \<in> set cats then one_hot cats v
                                            else replicate (length cats) 0)
                        (zip categorical_features (zip (categories (cat ct)) vs))))"
  by (simp add: ColumnTransformer_transform_def assms OneHotEncoder_transform_ignore)

lemma fit_scaler_shape:
  assumes "ColumnTransformer_fit rows = Inr ct"
  shows "length (means (num ct)) = length numeric_features"
    and "length (scales (num ct)) = length numeric_features"
    and "\<forall>s \<in> set (scales (num ct)). s \<noteq> 0"
  using assms
  by (auto elim!: ColumnTransformer_fit_Inr simp: StandardScaler_fit_def handle_zeros_in_scale_def)

lemma scaled_length:
  assumes "length (means sc) = length xs" "length (scales sc) = length xs"
  shows "length (StandardScaler_transform sc xs) = length xs"
  using assms by (simp add: StandardScaler_transform_def)

lemma scaler_round_trip:
  assumes "length (means sc) = length xs" "length (scales sc) = length xs"
    and "\<forall>s \<in> set (scales sc). s \<noteq> 0"
  shows "inverse_transform sc (StandardScaler_transform sc xs) = xs"
proof (rule nth_equalityI)
  show "length (inverse_transform sc (StandardScaler_transform sc xs)) = length xs"
    using assms by (simp add: inverse_transform_def StandardScaler_transform_def)
next
  fix i assume "i < length (inverse_transform sc (StandardScaler_transform sc xs))"
  then have i: "i < length xs"
    using assms by (simp add: inverse_transform_def StandardScaler_transform_def)
  then have "scales sc ! i \<noteq> 0" using assms by (metis nth_mem)
  then show "inverse_transform sc (StandardScaler_transform sc xs) ! i = xs ! i"
    using i assms by (simp add: inverse_transform_def StandardScaler_transform_def)
qed

text \<open>
  C8. For a fitted preprocessor and a row of its training set: the row has numeric values,
  the transform succeeds, and undoing the standardization (\<open>z * scale + mean\<close>) on the
  numeric slice of the output gives these values back (exactly, over the reals).
\<close>

theorem standardization_round_trip:
  assumes "ColumnTransformer_fit rows = Inr ct" and "r \<in> set rows"
  shows "\<exists>xs x. numeric_values r = Inr xs \<and> ColumnTransformer_transform ct r = Inr x
           \<and> inverse_transform (num ct) (numeric_slice x) = xs"
proof -
  from fit_rows_usable [OF assms] obtain xs vs
    where xs: "numeric_values r = Inr xs" and vs: "lookup_cols categorical_features r = Inr vs"
    by (rule usableE)
  have len: "length xs = length numeric_features"
    using xs by (rule numeric_values_length)
  note shape = fit_scaler_shape [OF assms(1)]
  let ?z = "StandardScaler_transform (num ct) xs"
  obtain bs where x: "ColumnTransformer_transform ct r = Inr (?z @ bs)"
    using transform_ignore [OF fit_handle_unknown [OF assms(1)] xs vs] by simp
  have "length ?z = length numeric_features"
    using shape len by (simp add: scaled_length)
  then have "numeric_slice (?z @ bs) = ?z"
    by (simp add: numeric_slice_def)
  moreover have "inverse_transform (num ct) ?z = xs"
    using shape len by (intro scaler_round_trip) simp_all
  ultimately show ?thesis using xs x by simp
qed

lemma train_fit: "ColumnTransformer_fit train_rows = Inr train_preprocessor"
  by (simp add: ColumnTransformer_fit_def train_rows_def train_preprocessor_def
      numeric_values_def numeric_features_def categorical_features_def
      StandardScaler_fit_def OneHotEncoder_fit_def column_def mean_def variance_def
      handle_zeros_in_scale_def)

lemma example_usable: "usable example_input"
  by (simp add: usable_def example_input_def numeric_values_def numeric_features_def
      categorical_features_def)

lemma train_transform_example:
  "ColumnTransformer_transform train_preprocessor example_input
     = Inr [- 535 / 4, 0, 0, 1, 0, 1, 0, 0, 1, 0, 0]"
  by (simp add: ColumnTransformer_transform_def train_preprocessor_def example_input_def
      numeric_values_def numeric_features_def categorical_features_def
      OneHotEncoder_transform_def encode_field_def one_hot_def StandardScaler_transform_def)

lemma replicate_mean: "0 < n \<Longrightarrow> mean (replicate n v) = v"
  by (simp add: mean_def sum_list_replicate)

lemma replicate_variance: "0 < n \<Longrightarrow> variance (replicate n v) = 0"
  by (simp add: variance_def replicate_mean)

lemma constant_column:
  assumes "\<forall>x \<in> set xs. x = v"
  shows "xs = replicate (length xs) v"
  using assms by (induction xs) auto

lemma fit_block_lengths:
  assumes "length cats = length categorical_features" "length vs = length categorical_features"
  shows "map length (map (\<lambda>(c, cats, v). if v \<in> set cats then one_hot cats v
                                           else replicate (length cats) (0::real))
                      (zip categorical_features (zip cats vs)))
         = map length cats"
  using assms by (intro nth_equalityI) (auto simp: one_hot_def)

text \<open>
  C7. When a numeric field has the same value \<open>v\<close> in every training row (so its standard
  deviation is 0), fitting succeeds, the scale of the field is 1 and its mean is \<open>v\<close>, and
  the transform of any usable row succeeds and maps the field's value \<open>u\<close> to \<open>u - v\<close>.
\<close>

theorem zero_variance_scale_one:
  assumes rows: "rows \<noteq> []" "\<forall>r' \<in> set rows. usable r'"
    and j: "j < length numeric_features"
    and const: "\<forall>r' \<in> set rows. r' (numeric_features ! j) = Some (Num v)"
    and r: "usable r" "r (numeric_features ! j) = Some (Num u)"
  shows "\<exists>ct x. ColumnTransformer_fit rows = Inr ct \<and> scales (num ct) ! j = 1
           \<and> means (num ct) ! j = v
           \<and> ColumnTransformer_transform ct r = Inr x \<and> x ! j = u - v"
proof -
  from fit_total [OF rows] obtain ct where fit: "ColumnTransformer_fit rows = Inr ct" ..
  from fit obtain N where N: "collect numeric_values rows = Inr N"
    and num: "num ct = StandardScaler_fit N"
    by (rule ColumnTransformer_fit_Inr)
  have NN: "list_all2 (\<lambda>r xs. numeric_values r = Inr xs) rows N"
    using N by (simp add: collect_Inr_iff)
  have "\<forall>x \<in> set (column j N). x = v"
  proof
    fix x assume "x \<in> set (column j N)"
    then obtain k where k: "k < length N" and x: "x = N ! k ! j"
      by (auto simp: column_def in_set_conv_nth)
    with NN have nv: "numeric_values (rows ! k) = Inr (N ! k)" and kr: "k < length rows"
      by (auto simp: list_all2_conv_all_nth)
    then have "map (rows ! k) numeric_features = map (\<lambda>x. Some (Num x)) (N ! k)"
      by (simp add: numeric_values_Inr_iff)
    then have "(rows ! k) (numeric_features ! j) = Some (Num (N ! k ! j))"
      using j numeric_values_length [OF nv]
      by (metis (no_types, lifting) length_map nth_map)
    moreover have "rows ! k \<in> set rows" using kr by simp
    ultimately show "x = v" using const x by auto
  qed
  then have col: "column j N = replicate (length N) v"
    using constant_column [of "column j N" v] by (simp add: column_def)
  have "length N = length rows"
    using NN by (rule list_all2_lengthD [symmetric])
  then have pos: "0 < length N" using rows(1) by simp
  have scale: "scales (num ct) ! j = 1" and mean: "means (num ct) ! j = v"
    using j pos by (simp_all add: num StandardScaler_fit_def col replicate_mean
        replicate_variance handle_zeros_in_scale_def)
  from r(1) obtain xs vs where xs: "numeric_values r = Inr xs"
    and vs: "lookup_cols categorical_features r = Inr vs"
    by (rule usableE)
  have len: "length xs = length numeric_features"
    using xs by (rule numeric_values_length)
  have "map r numeric_features = map (\<lambda>x. Some (Num x)) xs"
    using xs by (simp add: numeric_values_Inr_iff)
  then have "r (numeric_features ! j) = Some (Num (xs ! j))"
    using j len by (metis (no_types, lifting) length_map nth_map)
  then have u: "xs ! j = u" using r(2) by simp
  note shape = fit_scaler_shape [OF fit]
  let ?z = "StandardScaler_transform (num ct) xs"
  obtain bs where x: "ColumnTransformer_transform ct r = Inr (?z @ bs)"
    using transform_ignore [OF fit_handle_unknown [OF fit] xs vs] by simp
  have "length ?z = length numeric_features"
    using shape len by (simp add: scaled_length)
  then have "(?z @ bs) ! j = ?z ! j"
    using j by (simp add: nth_append)
  also have "\<dots> = (xs ! j - means (num ct) ! j) / scales (num ct) ! j"
    using j len shape by (simp add: StandardScaler_transform_def)
  also have "\<dots> = u - v"
    by (simp add: scale mean u)
  finally show ?thesis using fit scale mean x by auto
qed

theorem zero_variance_scale_one_witness:
  "ColumnTransformer_fit train_rows = Inr train_preprocessor
   \<and> scales (num train_preprocessor) ! 1 = 1
   \<and> ColumnTransformer_transform train_preprocessor (example_input(''rain_1h'' \<mapsto> Num 3))
       = Inr [- 535 / 4, 3, 0, 1, 0, 1, 0, 0, 1, 0, 0]"
proof -
  have a: "train_rows \<noteq> []" "\<forall>r' \<in> set train_rows. usable r'"
    and b: "1 < length numeric_features"
    and c: "\<forall>r' \<in> set train_rows. r' (numeric_features ! 1) = Some (Num 0)"
    and d: "usable (example_input(''rain_1h'' \<mapsto> Num 3))"
      "(example_input(''rain_1h'' \<mapsto> Num 3)) (numeric_features ! 1) = Some (Num 3)"
    by (simp_all add: train_rows_def usable_def example_input_def numeric_values_def
        numeric_features_def categorical_features_def)
  have t: "ColumnTransformer_transform train_preprocessor (example_input(''rain_1h'' \<mapsto> Num 3))
       = Inr [- 535 / 4, 3, 0, 1, 0, 1, 0, 0, 1, 0, 0]"
    by (simp add: ColumnTransformer_transform_def train_preprocessor_def example_input_def
      numeric_values_def numeric_features_def categorical_features_def
      OneHotEncoder_transform_def encode_field_def one_hot_def StandardScaler_transform_def)
  have s: "scales (num train_preprocessor) ! 1 = 1"
    by (simp add: train_preprocessor_def)
  from zero_variance_scale_one [OF a b c d] train_fit t s show ?thesis by simp
qed

lemma fit_categories:
  assumes "ColumnTransformer_fit rows = Inr ct"
  obtains C where "list_all2 (\<lambda>r vs. lookup_cols categorical_features r = Inr vs) rows C"
    and "length (categories (cat ct)) = length categorical_features"
    and "\<And>i. i < length categorical_features \<Longrightarrow> categories (cat ct) ! i = remdups (column i C)"
proof -
  from assms obtain C where C: "collect (lookup_cols categorical_features) rows = Inr C"
    and cat: "cat ct = OneHotEncoder_fit HU_ignore C"
    by (rule ColumnTransformer_fit_Inr)
  show ?thesis
  proof (rule that [of C])
    show "list_all2 (\<lambda>r vs. lookup_cols categorical_features r = Inr vs) rows C"
      using C by (simp add: collect_Inr_iff)
    show "length (categories (cat ct)) = length categorical_features"
      by (simp add: cat OneHotEncoder_fit_def)
    show "categories (cat ct) ! i = remdups (column i C)" if "i < length categorical_features" for i
      using that by (simp add: cat OneHotEncoder_fit_def)
  qed
qed

text \<open>
  C3. For a fitted preprocessor and a usable row whose value in a categorical field
  occurs in no training row: the transform succeeds, and the block of the output vector
  that encodes the field (one position per recorded category, at least one) is all zero.
\<close>

theorem unseen_category_all_zero:
  assumes fit: "ColumnTransformer_fit rows = Inr ct"
    and r: "usable r"
    and i: "i < length categorical_features"
    and v: "r (categorical_features ! i) = Some v"
    and unseen: "\<forall>r' \<in> set rows. r' (categorical_features ! i) \<noteq> Some v"
  shows "\<exists>x. ColumnTransformer_transform ct r = Inr x
           \<and> categories (cat ct) ! i \<noteq> []
           \<and> one_hot_block ct i x = replicate (length (categories (cat ct) ! i)) 0"
proof -
  let ?cf = categorical_features
  let ?cats = "categories (cat ct)"
  from fit obtain C where C: "list_all2 (\<lambda>r vs. lookup_cols ?cf r = Inr vs) rows C"
    and ncats: "length ?cats = length ?cf"
    and cats_i: "?cats ! i = remdups (column i C)"
    using i by (auto elim: fit_categories)
  have rows: "rows \<noteq> []"
    using fit by (auto elim: ColumnTransformer_fit_Inr)
  have lenC: "length C = length rows"
    using C by (rule list_all2_lengthD [symmetric])
  have cell: "(rows ! k) (?cf ! i) = Some (C ! k ! i)" if "k < length rows" for k
  proof -
    have "lookup_cols ?cf (rows ! k) = Inr (C ! k)"
      using C that by (simp add: list_all2_conv_all_nth)
    then have "map (rows ! k) ?cf = map Some (C ! k)"
      by (simp add: lookup_cols_Inr_iff)
    then show ?thesis
      using i by (metis (no_types, lifting) length_map nth_map)
  qed
  have notin: "v \<notin> set (?cats ! i)"
  proof
    assume "v \<in> set (?cats ! i)"
    then obtain k where k: "k < length C" and "v = C ! k ! i"
      by (auto simp: cats_i column_def in_set_conv_nth)
    then have "(rows ! k) (?cf ! i) = Some v"
      using cell [of k] lenC by simp
    moreover have "rows ! k \<in> set rows" using k lenC by simp
    ultimately show False using unseen by blast
  qed
  have nonempty: "?cats ! i \<noteq> []"
  proof -
    have "C \<noteq> []" using rows lenC by auto
    then show ?thesis by (simp add: cats_i column_def)
  qed
  from r obtain xs vs where xs: "numeric_values r = Inr xs"
    and vs: "lookup_cols ?cf r = Inr vs"
    by (rule usableE)
  have lvs: "length vs = length ?cf"
    using vs by (rule lookup_cols_length)
  have "map r ?cf = map Some vs"
    using vs by (simp add: lookup_cols_Inr_iff)
  then have "r (?cf ! i) = Some (vs ! i)"
    using i lvs by (metis (no_types, lifting) length_map nth_map)
  then have vi: "vs ! i = v" using v by simp
  let ?g = "\<lambda>(c, cats, v). if v \<in> set cats then one_hot cats v
                              else replicate (length cats) (0::real)"
  let ?bs = "map ?g (zip ?cf (zip ?cats vs))"
  let ?z = "StandardScaler_transform (num ct) xs"
  have x: "ColumnTransformer_transform ct r = Inr (?z @ concat ?bs)"
    using transform_ignore [OF fit_handle_unknown [OF fit] xs vs] .
  have lz: "length ?z = length numeric_features"
    using fit_scaler_shape [OF fit] numeric_values_length [OF xs] by (simp add: scaled_length)
  have lens: "map length ?bs = map length ?cats"
    using ncats lvs by (rule fit_block_lengths)
  have lbs: "i < length ?bs"
    using i ncats lvs by simp
  have bi: "?bs ! i = replicate (length (?cats ! i)) 0"
    using i ncats lvs notin vi by simp
  have "map length (take i ?bs) = map length (take i ?cats)"
    using lens by (metis take_map)
  then have "one_hot_block ct i (?z @ concat ?bs)
      = take (length (?bs ! i)) (drop (sum_list (map length (take i ?bs))) (concat ?bs))"
    using lz bi by (simp add: one_hot_block_def)
  also have "\<dots> = ?bs ! i"
    using lbs by (rule concat_block)
  finally show ?thesis
    using x nonempty bi by auto
qed

theorem unseen_category_all_zero_witness:
  "ColumnTransformer_fit train_rows = Inr train_preprocessor
   \<and> ColumnTransformer_transform train_preprocessor example_input
       = Inr [- 535 / 4, 0, 0, 1, 0, 1, 0, 0, 1, 0, 0]
   \<and> one_hot_block train_preprocessor 2 [- 535 / 4, 0, 0, 1, 0, 1, 0, 0, 1, 0, 0] = [0]"
proof -
  have a: "2 < length categorical_features"
    and b: "example_input (categorical_features ! 2) = Some (Num 6)"
    and c: "\<forall>r' \<in> set train_rows. r' (categorical_features ! 2) \<noteq> Some (Num 6)"
    by (simp_all add: train_rows_def example_input_def categorical_features_def)
  have "one_hot_block train_preprocessor 2 [- 535 / 4, 0, 0, 1, 0, 1, 0, 0, 1, 0, 0] = [0]"
    by (simp add: one_hot_block_def train_preprocessor_def numeric_features_def)
  with unseen_category_all_zero [OF train_fit example_usable a b c] train_fit
    train_transform_example
  show ?thesis by simp
qed

theorem standardization_round_trip_witness:
  "ColumnTransformer_fit train_rows = Inr train_preprocessor
   \<and> numeric_values (train_rows ! 1) = Inr [292, 0, 0]
   \<and> ColumnTransformer_transform train_preprocessor (train_rows ! 1)
       = Inr [1, 0, 0, 1, 0, 1, 1, 0, 1, 0, 1]
   \<and> inverse_transform (num train_preprocessor) (numeric_slice [1, 0, 0, 1, 0, 1, 1, 0, 1, 0, 1])
       = [292, 0, 0]"
proof -
  have m: "train_rows ! 1 \<in> set train_rows"
    by (simp add: train_rows_def)
  have "numeric_values (train_rows ! 1) = Inr [292, 0, 0]"
    by (simp add: train_rows_def numeric_values_def numeric_features_def)
  moreover have "ColumnTransformer_transform train_preprocessor (train_rows ! 1)
       = Inr [1, 0, 0, 1, 0, 1, 1, 0, 1, 0, 1]"
    by (simp add: ColumnTransformer_transform_def train_preprocessor_def train_rows_def
      numeric_values_def numeric_features_def categorical_features_def
      OneHotEncoder_transform_def encode_field_def one_hot_def StandardScaler_transform_def)
  ultimately show ?thesis
    using standardization_round_trip [OF train_fit m] train_fit by simp
qed

section \<open>Training on a constant target\<close>

lemma grow_constant:
  "S \<noteq> [] \<Longrightarrow> \<forall>s \<in> set S. snd s = c \<Longrightarrow> tree_predict (grow splitter S) x = c"
proof (induction splitter S rule: grow.induct)
  case (1 splitter S)
  have "map snd S = replicate (length S) c"
    using "1.prems"(2) constant_column [of "map snd S" c] by simp
  then have leaf: "mean (map snd S) = c"
    using "1.prems"(1) by (simp add: replicate_mean)
  show ?case
  proof (cases "splitter S")
    case None
    then show ?thesis by (subst grow.simps) (simp add: leaf)
  next
    case (Some ft)
    obtain f t where ft: "ft = (f, t)" by (cases ft)
    let ?L = "filter (goes_left f t) S" and ?R = "filter (\<lambda>s. \<not> goes_left f t s) S"
    show ?thesis
    proof (cases "(\<forall>s \<in> set S. f < length (fst s)) \<and> ?L \<noteq> [] \<and> ?R \<noteq> []")
      case True
      have "tree_predict (grow splitter ?L) x = c"
        using True "1.prems"(2) by (intro "1.IH"(1) [OF Some ft [symmetric]]) auto
      moreover have "tree_predict (grow splitter ?R) x = c"
        using True "1.prems"(2) by (intro "1.IH"(2) [OF Some ft [symmetric]]) auto
      ultimately show ?thesis
        using True Some ft by (subst grow.simps) simp
    next
      case False
      then show ?thesis
        using Some ft by (subst grow.simps) (auto simp: leaf)
    qed
  qed
qed

lemma bootstrap_nonempty: "S \<noteq> [] \<Longrightarrow> bootstrap rng i S \<noteq> []"
  by (simp add: bootstrap_def)

lemma bootstrap_subset: "S \<noteq> [] \<Longrightarrow> set (bootstrap rng i S) \<subseteq> set S"
  by (auto simp: bootstrap_def)

lemma forest_constant:
  assumes "RandomForestRegressor_fit rng splitter X y = Inr rf"
    and "\<forall>t \<in> set y. t = c" and "length x = length (hd X)"
  shows "RandomForestRegressor_predict rf x = Inr c"
proof -
  from assms(1) have X: "X \<noteq> []" and len: "length X = length y"
    and rf: "rf = \<lparr> n_features_in = length (hd X),
                    estimators = map (\<lambda>i. grow (splitter i) (bootstrap rng i (zip X y))) [0..<n_estimators],
                    feature_importances =
                      normalize_scores (map (feature_gain (forest_gains rng splitter (zip X y)))
                                          [0..<length (hd X)]) \<rparr>"
    by (auto simp: RandomForestRegressor_fit_def Let_def split: if_splits)
  have S: "zip X y \<noteq> []" using X len by (cases X; cases y) auto
  have tgt: "\<forall>s \<in> set (zip X y). snd s = c"
    using assms(2) by (auto dest: set_zip_rightD)
  have "tree_predict (grow (splitter i) (bootstrap rng i (zip X y))) x = c" for i
    using bootstrap_nonempty [OF S] bootstrap_subset [OF S] tgt
    by (intro grow_constant) blast+
  then have "map (\<lambda>t. tree_predict t x) (estimators rf) = replicate n_estimators c"
    by (intro nth_equalityI) (simp_all add: rf)
  then show ?thesis
    using assms(3) by (simp add: RandomForestRegressor_predict_def rf replicate_mean n_estimators_def)
qed

lemma fit_transform_length:
  assumes "ColumnTransformer_fit rows = Inr ct" and "ColumnTransformer_transform ct r = Inr x"
  shows "length x = length numeric_features + sum_list (map length (categories (cat ct)))"
proof -
  have hu: "handle_unknown (cat ct) = HU_ignore"
    using assms(1) by (rule fit_handle_unknown)
  from assms(2) obtain xs vs where xs: "numeric_values r = Inr xs"
    and vs: "lookup_cols categorical_features r = Inr vs"
    by (auto simp: ColumnTransformer_transform_def split: sum.splits)
  from assms(1) have ncats: "length (categories (cat ct)) = length categorical_features"
    by (auto elim: fit_categories)
  have "length (StandardScaler_transform (num ct) xs) = length numeric_features"
    using fit_scaler_shape [OF assms(1)] numeric_values_length [OF xs] by (simp add: scaled_length)
  moreover note fit_block_lengths [OF ncats lookup_cols_length [OF vs]]
  ultimately show ?thesis
    using assms(2) unfolding transform_ignore [OF hu xs vs]
    by (auto simp: length_concat)
qed

lemma transform_total:
  assumes "ColumnTransformer_fit rows = Inr ct" and "usable r"
  shows "\<exists>x. ColumnTransformer_transform ct r = Inr x"
proof -
  from assms(2) obtain xs vs where "numeric_values r = Inr xs"
    "lookup_cols categorical_features r = Inr vs"
    by (rule usableE)
  then show ?thesis
    using transform_ignore [OF fit_handle_unknown [OF assms(1)]] by blast
qed

lemma Pipeline_fit_Inr:
  assumes "Pipeline_fit rng splitter X_train y_train = Inr m"
  obtains X where "ColumnTransformer_fit X_train = Inr (preprocessor m)"
    and "collect (ColumnTransformer_transform (preprocessor m)) X_train = Inr X"
    and "RandomForestRegressor_fit rng splitter X y_train = Inr (regressor m)"
  using assms by (auto simp: Pipeline_fit_def split: sum.splits)

lemma Pipeline_fit_total:
  assumes "X_train \<noteq> []" and "\<forall>r \<in> set X_train. usable r"
    and "length y_train = length X_train"
  shows "\<exists>m. Pipeline_fit rng splitter X_train y_train = Inr m"
proof -
  from fit_total [OF assms(1,2)] obtain ct where ct: "ColumnTransformer_fit X_train = Inr ct" ..
  have "\<not> isl (ColumnTransformer_transform ct r)" if "r \<in> set X_train" for r
    using transform_total [OF ct] assms(2) that by fastforce
  then obtain X where X: "collect (ColumnTransformer_transform ct) X_train = Inr X"
    using collect_total [of X_train "ColumnTransformer_transform ct"] by auto
  then have "length X = length X_train"
    by (auto simp: collect_Inr_iff dest: list_all2_lengthD)
  then show ?thesis
    using assms(1,3) ct X
    by (auto simp: Pipeline_fit_def RandomForestRegressor_fit_def Let_def)
qed

lemma constant_target_predict:
  assumes fit: "Pipeline_fit rng splitter X_train y_train = Inr m"
    and const: "\<forall>y \<in> set y_train. y = c"
    and r: "usable r"
  shows "Pipeline_predict m r = Inr c"
proof -
  from fit obtain X where ct: "ColumnTransformer_fit X_train = Inr (preprocessor m)"
    and X: "collect (ColumnTransformer_transform (preprocessor m)) X_train = Inr X"
    and rf: "RandomForestRegressor_fit rng splitter X y_train = Inr (regressor m)"
    by (rule Pipeline_fit_Inr)
  from transform_total [OF ct r] obtain x
    where x: "ColumnTransformer_transform (preprocessor m) r = Inr x" ..
  have XX: "list_all2 (\<lambda>r x. ColumnTransformer_transform (preprocessor m) r = Inr x) X_train X"
    using X by (simp add: collect_Inr_iff)
  have "X \<noteq> []"
    using rf by (auto simp: RandomForestRegressor_fit_def split: if_splits)
  then have "ColumnTransformer_transform (preprocessor m) (hd X_train) = Inr (hd X)"
    using XX by (cases X; cases X_train) auto
  then have "length (hd X) = length x"
    using fit_transform_length [OF ct] x by simp
  then have "RandomForestRegressor_predict (regressor m) x = Inr c"
    using forest_constant [OF rf const, of x] by simp
  then show ?thesis
    by (simp add: Pipeline_predict_def x)
qed

lemma constant_target_rmse:
  assumes pred: "\<forall>r \<in> set X_test. Pipeline_predict m r = Inr c"
    and "X_test \<noteq> []" and "length y_test = length X_test" and "\<forall>y \<in> set y_test. y = c"
  shows "evaluate_rmse m X_test y_test = Inr 0"
proof -
  let ?n = "length X_test"
  have "list_all2 (\<lambda>r y. Pipeline_predict m r = Inr y) X_test (replicate ?n c)"
    using pred by (simp add: list_all2_conv_all_nth)
  then have p: "collect (Pipeline_predict m) X_test = Inr (replicate ?n c)"
    by (rule collect_InrI)
  have y: "y_test = replicate ?n c"
    using constant_column [OF assms(4)] unfolding assms(3) .
  have "map (\<lambda>(a, b). (a - b)\<^sup>2) (zip (replicate ?n c) (replicate ?n c)) = replicate ?n 0"
    by (intro nth_equalityI) simp_all
  then have "mean_squared_error (replicate ?n c) (replicate ?n c) = Inr 0"
    using assms(2) by (simp add: mean_squared_error_def replicate_mean)
  then have "mean_squared_error y_test (replicate ?n c) = Inr 0"
    by (subst y)
  then show ?thesis
    by (simp add: evaluate_rmse_def p)
qed

text \<open>
  C9. For a non-empty training set of usable rows whose targets all equal \<open>c\<close>, whatever
  the random draws and the split search: training succeeds, the trained pipeline predicts
  exactly \<open>c\<close> for every usable row, and the root mean squared error on any non-empty
  set of usable rows with targets \<open>c\<close> is 0.
\<close>

theorem constant_target_model:
  assumes "X_train \<noteq> []" and "\<forall>r \<in> set X_train. usable r"
    and "length y_train = length X_train" and "\<forall>y \<in> set y_train. y = c"
  shows "\<exists>m. Pipeline_fit rng splitter X_train y_train = Inr m
           \<and> (\<forall>r. usable r \<longrightarrow> Pipeline_predict m r = Inr c)
           \<and> (\<forall>X_test y_test.
                 X_test \<noteq> [] \<and> (\<forall>r \<in> set X_test. usable r)
                 \<and> length y_test = length X_test \<and> (\<forall>y \<in> set y_test. y = c)
                 \<longrightarrow> evaluate_rmse m X_test y_test = Inr 0)"
proof -
  from Pipeline_fit_total [OF assms(1-3)] obtain m
    where m: "Pipeline_fit rng splitter X_train y_train = Inr m" ..
  have p: "\<forall>r. usable r \<longrightarrow> Pipeline_predict m r = Inr c"
    using constant_target_predict [OF m assms(4)] by simp
  have e: "\<forall>X_test y_test.
                 X_test \<noteq> [] \<and> (\<forall>r \<in> set X_test. usable r)
                 \<and> length y_test = length X_test \<and> (\<forall>y \<in> set y_test. y = c)
                 \<longrightarrow> evaluate_rmse m X_test y_test = Inr 0"
  proof (intro allI impI)
    fix X_test :: "row list" and y_test :: "real list"
    assume h: "X_test \<noteq> [] \<and> (\<forall>r \<in> set X_test. usable r)
                 \<and> length y_test = length X_test \<and> (\<forall>y \<in> set y_test. y = c)"
    then have "\<forall>r \<in> set X_test. Pipeline_predict m r = Inr c"
      using p by simp
    moreover from h have "X_test \<noteq> []" "length y_test = length X_test" "\<forall>y \<in> set y_test. y = c"
      by simp_all
    ultimately show "evaluate_rmse m X_test y_test = Inr 0"
      by (rule constant_target_rmse)
  qed
  show ?thesis
    by (rule exI [of _ m]) (intro conjI m p e)
qed

lemma train_rows_usable: "\<forall>r \<in> set train_rows. usable r"
  using fit_rows_usable [OF train_fit] by blast

theorem constant_target_model_witness:
  "\<exists>m. Pipeline_fit example_rng example_splitter train_rows [5000, 5000] = Inr m
      \<and> Pipeline_predict m example_input = Inr 5000
      \<and> evaluate_rmse m train_rows [5000, 5000] = Inr 0"
proof -
  have a: "train_rows \<noteq> []" and b: "length [5000, 5000 :: real] = length train_rows"
    and c: "\<forall>y \<in> set [5000, 5000 :: real]. y = 5000"
    by (simp_all add: train_rows_def)
  from constant_target_model [OF a train_rows_usable b c, of example_rng example_splitter]
  obtain m where m: "Pipeline_fit example_rng example_splitter train_rows
        [5000, 5000] = Inr m"
    and p: "\<forall>r. usable r \<longrightarrow> Pipeline_predict m r = Inr 5000"
    and e: "\<forall>X_test y_test. X_test \<noteq> [] \<and> (\<forall>r \<in> set X_test. usable r)
                 \<and> length y_test = length X_test \<and> (\<forall>y \<in> set y_test. y = 5000)
                 \<longrightarrow> evaluate_rmse m X_test y_test = Inr 0"
    by (elim exE conjE)
  have "evaluate_rmse m train_rows [5000, 5000] = Inr 0"
    using a b c train_rows_usable e [rule_format, of train_rows "[5000, 5000]"] by simp
  moreover have "Pipeline_predict m example_input = Inr 5000"
    using p example_usable by simp
  ultimately show ?thesis
    using m by (intro exI [of _ m]) simp
qed

section \<open>Properties of the feature importances\<close>

lemma squares_shift:
  "sum_list (map (\<lambda>y. (y - a)\<^sup>2) ys)
     = sum_list (map (\<lambda>y. (y - m)\<^sup>2) ys) + 2 * (m - a) * sum_list (map (\<lambda>y. y - m) ys)
       + real (length ys) * (m - a)\<^sup>2" for a m :: real
  by (induction ys) (simp_all add: power2_eq_square algebra_simps)

lemma deviations_sum_zero: "ys \<noteq> [] \<Longrightarrow> sum_list (map (\<lambda>y. y - mean ys) ys) = 0"
proof -
  assume "ys \<noteq> []"
  have "sum_list (map (\<lambda>y. y - c) ys) = sum_list ys - real (length ys) * c" for c :: real
    by (induction ys) (simp_all add: algebra_simps)
  then show ?thesis using \<open>ys \<noteq> []\<close> by (simp add: mean_def)
qed

lemma sse_least: "sse ys \<le> sum_list (map (\<lambda>y. (y - a)\<^sup>2) ys)"
proof (cases "ys = []")
  case True
  then show ?thesis by (simp add: sse_def)
next
  case False
  have "sum_list (map (\<lambda>y. (y - a)\<^sup>2) ys) = sse ys + real (length ys) * (mean ys - a)\<^sup>2"
    using squares_shift [of a ys "mean ys"] deviations_sum_zero [OF False] by (simp add: sse_def)
  then show ?thesis by simp
qed

lemma sum_list_filter_split:
  "sum_list (map g (filter P xs)) + sum_list (map g (filter (\<lambda>x. \<not> P x) xs))
     = sum_list (map (g :: 'a \<Rightarrow> real) xs)"
  by (induction xs) simp_all

lemma split_gain_nonneg:
  fixes S :: "sample list"
  shows "0 \<le> sse (map snd S) - sse (map snd (filter P S)) - sse (map snd (filter (\<lambda>s. \<not> P s) S))"
proof -
  let ?m = "mean (map snd S)"
  let ?g = "\<lambda>s :: sample. (snd s - ?m)\<^sup>2"
  have "sse (map snd (filter P S)) \<le> sum_list (map ?g (filter P S))"
    using sse_least [of "map snd (filter P S)" ?m] by (simp add: comp_def)
  moreover have "sse (map snd (filter (\<lambda>s. \<not> P s) S)) \<le> sum_list (map ?g (filter (\<lambda>s. \<not> P s) S))"
    using sse_least [of "map snd (filter (\<lambda>s. \<not> P s) S)" ?m] by (simp add: comp_def)
  moreover have "sse (map snd S) = sum_list (map ?g S)"
    by (simp add: sse_def comp_def)
  ultimately show ?thesis
    using sum_list_filter_split [of ?g P S] by simp
qed

lemma split_gains_nonneg: "\<forall>g \<in> set (split_gains splitter S). 0 \<le> snd g"
proof (induction splitter S rule: split_gains.induct)
  case (1 splitter S)
  show ?case
  proof (cases "splitter S")
    case None
    then show ?thesis by (subst split_gains.simps) simp
  next
    case (Some ft)
    obtain f t where ft: "ft = (f, t)" by (cases ft)
    show ?thesis
    proof (cases "(\<forall>s \<in> set S. f < length (fst s)) \<and> filter (goes_left f t) S \<noteq> []
                   \<and> filter (\<lambda>s. \<not> goes_left f t s) S \<noteq> []")
      case True
      then show ?thesis
        using "1.IH"(1) [OF Some ft [symmetric]] "1.IH"(2) [OF Some ft [symmetric]]
          split_gain_nonneg [of S "goes_left f t"] Some ft
        by (subst split_gains.simps) auto
    next
      case False
      then show ?thesis using Some ft by (subst split_gains.simps) auto
    qed
  qed
qed

lemma forest_gains_nonneg: "\<forall>g \<in> set (forest_gains rng splitter S). 0 \<le> snd g"
  using split_gains_nonneg by (auto simp: forest_gains_def)

lemma feature_gain_nonneg: "\<forall>g \<in> set gains. 0 \<le> snd g \<Longrightarrow> 0 \<le> feature_gain gains j"
  by (auto simp: feature_gain_def intro!: sum_list_nonneg)

lemma normalize_scores_length: "length (normalize_scores v) = length v"
  by (simp add: normalize_scores_def)

lemma normalize_scores_sum:
  "sum_list (normalize_scores v) = (if sum_list v = 0 then 0 else 1)"
proof -
  have "sum_list (map (\<lambda>x. x / c) v) = sum_list v / c" for c :: real
    by (induction v) (simp_all add: add_divide_distrib)
  then show ?thesis by (simp add: normalize_scores_def)
qed

lemma normalize_scores_nonneg:
  assumes "\<forall>x \<in> set v. 0 \<le> x"
  shows "\<forall>x \<in> set (normalize_scores v). 0 \<le> x"
proof -
  have "0 \<le> sum_list v" using assms by (intro sum_list_nonneg) simp
  then show ?thesis using assms by (auto simp: normalize_scores_def)
qed

lemma normalize_scores_zero:
  "sum_list v = 0 \<Longrightarrow> \<forall>x \<in> set (normalize_scores v). x = 0"
  by (simp add: normalize_scores_def)

lemma sum_insort_key:
  "sum_list (map g (insort_key f x xs)) = (g x :: real) + sum_list (map g xs)"
  by (induction xs) auto

lemma sum_sort_key: "sum_list (map g (sort_key f xs)) = sum_list (map (g :: 'a \<Rightarrow> real) xs)"
  by (induction xs) (simp_all add: sum_insort_key)

lemma indicator_sum:
  "sum_list (map (\<lambda>j. if k = j then c else 0) [0..<d]) = (if k < d then c else (0 :: real))"
  by (induction d) auto

lemma feature_gain_total:
  assumes "\<forall>g \<in> set gains. fst g < d"
  shows "sum_list (map (feature_gain gains) [0..<d]) = sum_list (map snd gains)"
  using assms
proof (induction gains)
  case Nil
  then show ?case by (simp add: feature_gain_def)
next
  case (Cons g gains)
  have "feature_gain (g # gains) = (\<lambda>j. (if fst g = j then snd g else 0) + feature_gain gains j)"
    by (auto simp: feature_gain_def)
  then have "sum_list (map (feature_gain (g # gains)) [0..<d])
      = sum_list (map (\<lambda>j. if fst g = j then snd g else 0) [0..<d])
        + sum_list (map (feature_gain gains) [0..<d])"
    by (simp add: sum_list_addf)
  then show ?case
    using Cons indicator_sum [where k = "fst g" and d = d and c = "snd g"] by simp
qed

lemma split_gains_features:
  "\<forall>s \<in> set S. length (fst s) = d \<Longrightarrow> \<forall>g \<in> set (split_gains splitter S). fst g < d"
proof (induction splitter S rule: split_gains.induct)
  case (1 splitter S)
  show ?case
  proof (cases "splitter S")
    case None
    then show ?thesis by (subst split_gains.simps) simp
  next
    case (Some ft)
    obtain f t where ft: "ft = (f, t)" by (cases ft)
    let ?L = "filter (goes_left f t) S" and ?R = "filter (\<lambda>s. \<not> goes_left f t s) S"
    show ?thesis
    proof (cases "(\<forall>s \<in> set S. f < length (fst s)) \<and> ?L \<noteq> [] \<and> ?R \<noteq> []")
      case True
      then obtain s where s: "s \<in> set S" by (cases S) auto
      have "f < length (fst s)" using True s by blast
      moreover have "length (fst s) = d" using "1.prems" s by blast
      ultimately have f: "f < d" by simp
      have "\<forall>g \<in> set (split_gains splitter ?L). fst g < d"
        using True "1.prems" by (intro "1.IH"(1) [OF Some ft [symmetric]]) auto
      moreover have "\<forall>g \<in> set (split_gains splitter ?R). fst g < d"
        using True "1.prems" by (intro "1.IH"(2) [OF Some ft [symmetric]]) auto
      ultimately show ?thesis
        using True Some ft f by (subst split_gains.simps) auto
    next
      case False
      then show ?thesis using Some ft by (subst split_gains.simps) auto
    qed
  qed
qed

lemma forest_gains_features:
  assumes "S \<noteq> []" and "\<forall>s \<in> set S. length (fst s) = d"
  shows "\<forall>g \<in> set (forest_gains rng splitter S). fst g < d"
proof -
  have "\<forall>g \<in> set (split_gains (splitter i) (bootstrap rng i S)). fst g < d" for i
    using bootstrap_subset [OF assms(1)] assms(2) by (intro split_gains_features) blast
  then show ?thesis by (auto simp: forest_gains_def)
qed

lemma sorted_take_dominates_drop:
  assumes "sorted (map key xs)" and "a \<in> set (take n xs)" and "b \<in> set (drop n xs)"
  shows "key a \<le> (key b :: real)"
proof -
  have "sorted (map key (take n xs) @ map key (drop n xs))"
    using assms(1) by (simp flip: map_append)
  then show ?thesis
    using assms(2,3) by (auto simp: sorted_append)
qed

lemma trained_importances:
  assumes "RandomForestRegressor_fit rng splitter X y = Inr rf"
  shows "X \<noteq> []" and "length X = length y"
    and "feature_importances rf
          = normalize_scores (map (feature_gain (forest_gains rng splitter (zip X y)))
                                [0..<length (hd X)])"
  using assms by (auto simp: RandomForestRegressor_fit_def Let_def split: if_splits)

lemma trained_series:
  assumes fit: "Pipeline_fit rng splitter X_train y_train = Inr m" and self: "model self = m"
  obtains X names where "collect (ColumnTransformer_transform (preprocessor m)) X_train = Inr X"
    and "feature_importance_series self = Inr (zip names (feature_importances (regressor m)))"
    and "length names = length (feature_importances (regressor m))"
    and "feature_importances (regressor m)
          = normalize_scores (map (feature_gain (forest_gains rng splitter (zip X y_train)))
                                [0..<length names])"
    and "sum_list (map (feature_gain (forest_gains rng splitter (zip X y_train))) [0..<length names])
          = sum_list (map snd (forest_gains rng splitter (zip X y_train)))"
proof -
  from fit obtain X where ct: "ColumnTransformer_fit X_train = Inr (preprocessor m)"
    and X: "collect (ColumnTransformer_transform (preprocessor m)) X_train = Inr X"
    and rf: "RandomForestRegressor_fit rng splitter X y_train = Inr (regressor m)"
    by (rule Pipeline_fit_Inr)
  let ?cats = "categories (cat (preprocessor m))"
  let ?names = "map Plain numeric_features
      @ concat (map (\<lambda>(c, cats). map (OneHot c) cats) (zip categorical_features ?cats))"
  let ?d = "length numeric_features + sum_list (map length ?cats)"
  let ?gains = "forest_gains rng splitter (zip X y_train)"
  note t = trained_importances [OF rf]
  have ncats: "length ?cats = length categorical_features"
    using ct by (auto elim: fit_categories)
  then have "map length (map (\<lambda>(c, cats). map (OneHot c) cats) (zip categorical_features ?cats))
      = map length ?cats"
    by (intro nth_equalityI) auto
  then have names: "length ?names = ?d"
    by (simp add: length_concat)
  have XX: "list_all2 (\<lambda>r x. ColumnTransformer_transform (preprocessor m) r = Inr x) X_train X"
    using X by (simp add: collect_Inr_iff)
  have rows: "\<forall>x \<in> set X. length x = ?d"
  proof
    fix x assume "x \<in> set X"
    then obtain k where "k < length X" "x = X ! k" by (auto simp: in_set_conv_nth)
    then have "ColumnTransformer_transform (preprocessor m) (X_train ! k) = Inr x"
      using XX by (auto simp: list_all2_conv_all_nth)
    then show "length x = ?d" by (rule fit_transform_length [OF ct])
  qed
  then have hd: "length (hd X) = ?d" using t(1) by simp
  have imps: "feature_importances (regressor m)
      = normalize_scores (map (feature_gain ?gains) [0..<length ?names])"
    unfolding t(3) hd names ..
  then have len: "length ?names = length (feature_importances (regressor m))"
    by (simp add: normalize_scores_length)
  have series: "feature_importance_series self = Inr (zip ?names (feature_importances (regressor m)))"
    using ncats len by (simp add: feature_importance_series_def get_feature_names_out_def self Let_def)
  have S: "zip X y_train \<noteq> []" using t(1,2) by (cases X; cases y_train) auto
  have "\<forall>s \<in> set (zip X y_train). length (fst s) = ?d"
    using rows by (auto dest: set_zip_leftD)
  then have "\<forall>g \<in> set ?gains. fst g < length ?names"
    using forest_gains_features [OF S] names by simp
  then have total: "sum_list (map (feature_gain ?gains) [0..<length ?names])
      = sum_list (map snd ?gains)"
    by (rule feature_gain_total)
  show ?thesis
    using X series len imps total by (rule that)
qed

text \<open>
  C5, amended. For every trained model: the importance scores of all features are not
  negative; they sum to 1 when some split of some tree reduces the squared error and are
  all 0 otherwise; \<open>get_feature_importance\<close> returns the ten highest of them (all of them
  when the model has at most ten features) in descending order, so the returned scores
  sum to the total minus the scores of the features left out, which is at most 1.
\<close>

theorem ten_highest_importances:
  assumes fit: "Pipeline_fit rng splitter X_train y_train = Inr m" and self: "model self = m"
  shows "\<exists>X series top rest.
           collect (ColumnTransformer_transform (preprocessor m)) X_train = Inr X
         \<and> feature_importance_series self = Inr series
         \<and> map snd series = feature_importances (regressor m)
         \<and> (\<forall>a \<in> set series. 0 \<le> snd a)
         \<and> total_score series
             = (if \<exists>g \<in> set (forest_gains rng splitter (zip X y_train)). 0 < snd g then 1 else 0)
         \<and> ((\<exists>g \<in> set (forest_gains rng splitter (zip X y_train)). 0 < snd g)
              \<or> (\<forall>a \<in> set series. snd a = 0))
         \<and> get_feature_importance self = Inr top
         \<and> mset (top @ rest) = mset series
         \<and> length top = min 10 (length series)
         \<and> sorted (map (\<lambda>(name, score). - score) top)
         \<and> (\<forall>a \<in> set top. \<forall>b \<in> set rest. snd b \<le> snd a)
         \<and> total_score top = total_score series - total_score rest
         \<and> total_score top \<le> 1"
proof -
  from fit self obtain X names
    where X: "collect (ColumnTransformer_transform (preprocessor m)) X_train = Inr X"
      and series: "feature_importance_series self = Inr (zip names (feature_importances (regressor m)))"
      and len: "length names = length (feature_importances (regressor m))"
      and imps: "feature_importances (regressor m)
          = normalize_scores (map (feature_gain (forest_gains rng splitter (zip X y_train)))
                                [0..<length names])"
      and total: "sum_list (map (feature_gain (forest_gains rng splitter (zip X y_train))) [0..<length names])
          = sum_list (map snd (forest_gains rng splitter (zip X y_train)))"
    by (rule trained_series)
  let ?imps = "feature_importances (regressor m)"
  let ?gains = "forest_gains rng splitter (zip X y_train)"
  let ?raw = "map (feature_gain ?gains) [0..<length names]"
  let ?series = "zip names ?imps"
  let ?sorted = "sort_values_descending ?series"
  let ?top = "take 10 ?sorted" and ?rest = "drop 10 ?sorted"
  let ?key = "\<lambda>(name :: feature_name, score :: real). - score"
  have scores: "map snd ?series = ?imps"
    using len by simp
  have gains_nonneg: "\<forall>g \<in> set ?gains. 0 \<le> snd g"
    by (rule forest_gains_nonneg)
  then have "\<forall>x \<in> set ?raw. 0 \<le> x"
    by (auto intro: feature_gain_nonneg)
  then have "\<forall>x \<in> set ?imps. 0 \<le> x"
    unfolding imps by (rule normalize_scores_nonneg)
  then have nonneg: "\<forall>a \<in> set ?series. 0 \<le> snd a"
    by (auto dest: set_zip_rightD)
  have "(sum_list (map snd ?gains) = 0) = (\<forall>x \<in> set (map snd ?gains). x = 0)"
    using gains_nonneg by (intro sum_list_nonneg_eq_0_iff) auto
  then have zero: "(sum_list ?raw = 0) = (\<not> (\<exists>g \<in> set ?gains. 0 < snd g))"
    using gains_nonneg unfolding total by (auto simp: less_le) 
  have "sum_list ?imps = (if sum_list ?raw = 0 then 0 else 1)"
    by (subst imps) (rule normalize_scores_sum)
  then have all: "total_score ?series = (if \<exists>g \<in> set ?gains. 0 < snd g then 1 else 0)"
    unfolding total_score_def scores using zero by simp
  have "\<forall>x \<in> set ?imps. x = 0" if "\<not> (\<exists>g \<in> set ?gains. 0 < snd g)"
    using that zero normalize_scores_zero [of ?raw] by (simp flip: imps)
  then have flat: "(\<exists>g \<in> set ?gains. 0 < snd g) \<or> (\<forall>a \<in> set ?series. snd a = 0)"
    by (auto dest: set_zip_rightD)
  have top: "get_feature_importance self = Inr ?top"
    by (simp add: get_feature_importance_def series)
  have perm: "mset (?top @ ?rest) = mset ?series"
    by (simp add: sort_values_descending_def)
  have l: "length ?top = min 10 (length ?series)"
    by (simp add: sort_values_descending_def)
  have srt: "sorted (map ?key ?sorted)"
    by (simp add: sort_values_descending_def)
  then have desc: "sorted (map ?key ?top)"
    by (simp add: take_map [symmetric] sorted_wrt_take)
  have dom: "\<forall>a \<in> set ?top. \<forall>b \<in> set ?rest. snd b \<le> snd a"
  proof (intro ballI)
    fix a b assume "a \<in> set ?top" "b \<in> set ?rest"
    then have "?key a \<le> ?key b"
      by (rule sorted_take_dominates_drop [OF srt])
    then show "snd b \<le> snd a" by (simp add: split_beta)
  qed
  have "total_score ?sorted = total_score ?series"
    by (simp add: total_score_def sort_values_descending_def sum_sort_key)
  moreover have "total_score ?sorted = total_score ?top + total_score ?rest"
    unfolding total_score_def by (metis append_take_drop_id map_append sum_list_append)
  ultimately have diff: "total_score ?top = total_score ?series - total_score ?rest"
    by simp
  have "set ?rest \<subseteq> set ?series"
    by (metis set_drop_subset set_sort sort_values_descending_def)
  then have "0 \<le> total_score ?rest"
    using nonneg unfolding total_score_def by (intro sum_list_nonneg) auto
  then have le: "total_score ?top \<le> 1"
    using diff all by (simp split: if_splits)
  show ?thesis
    apply (rule exI [of _ X], rule exI [of _ ?series], rule exI [of _ ?top], rule exI [of _ ?rest])
    using X series scores nonneg all flat top perm l desc dom diff le by (intro conjI)
qed

lemma wide_fit: "ColumnTransformer_fit wide_rows = Inr wide_preprocessor"
  by (simp add: ColumnTransformer_fit_def wide_rows_def wide_preprocessor_def
      numeric_values_def numeric_features_def categorical_features_def
      StandardScaler_fit_def OneHotEncoder_fit_def column_def mean_def variance_def
      handle_zeros_in_scale_def)

lemma wide_transform:
  "collect (ColumnTransformer_transform wide_preprocessor) wide_rows = Inr wide_X"
  by (simp add: ColumnTransformer_transform_def wide_preprocessor_def wide_rows_def wide_X_def
      numeric_values_def numeric_features_def categorical_features_def
      OneHotEncoder_transform_def encode_field_def one_hot_def StandardScaler_transform_def)

lemma wide_bootstrap:
  "bootstrap wide_rng i (zip wide_X [4000, 6000]) = zip wide_X [4000, 6000]"
  by (simp add: bootstrap_def wide_rng_def wide_X_def)

lemma upt_100: "[0..<100] = 0 # 1 # [2..<100]"
  by (simp add: upt_conv_Cons)

lemma wide_gains:
  "forest_gains wide_rng wide_splitter (zip wide_X [4000, 6000]) = [
      (0, 2000000), (1, 2000000), (1, 2000000), (2, 2000000), (2, 2000000), (2, 2000000),
      (3, 2000000), (3, 2000000), (3, 2000000), (3, 2000000), (4, 2000000), (4, 2000000),
      (4, 2000000), (4, 2000000), (4, 2000000), (5, 2000000), (5, 2000000), (5, 2000000),
      (5, 2000000), (5, 2000000), (5, 2000000), (6, 2000000), (6, 2000000), (6, 2000000),
      (6, 2000000), (6, 2000000), (6, 2000000), (6, 2000000), (7, 2000000), (7, 2000000),
      (7, 2000000), (7, 2000000), (7, 2000000), (7, 2000000), (7, 2000000), (7, 2000000),
      (8, 2000000), (8, 2000000), (8, 2000000), (8, 2000000), (8, 2000000), (8, 2000000),
      (8, 2000000), (8, 2000000), (8, 2000000), (9, 2000000), (9, 2000000), (9, 2000000),
      (9, 2000000), (9, 2000000), (9, 2000000), (9, 2000000), (9, 2000000), (9, 2000000),
      (9, 2000000), (10, 2000000), (10, 2000000), (10, 2000000), (10, 2000000), (10, 2000000),
      (10, 2000000), (10, 2000000), (10, 2000000), (10, 2000000), (10, 2000000), (10, 2000000),
      (11, 2000000), (11, 2000000), (11, 2000000), (11, 2000000), (11, 2000000), (11, 2000000),
      (11, 2000000), (11, 2000000), (11, 2000000), (11, 2000000), (11, 2000000), (11, 2000000),
      (12, 2000000), (12, 2000000), (12, 2000000), (12, 2000000), (12, 2000000), (12, 2000000),
      (12, 2000000), (12, 2000000), (12, 2000000), (12, 2000000), (12, 2000000), (12, 2000000),
      (12, 2000000)]"
  unfolding forest_gains_def wide_bootstrap n_estimators_def upt_100
  by (simp add: wide_splitter_def wide_X_def split_gains.simps goes_left_def sse_def mean_def)

lemma wide_raw:
  "map (feature_gain (forest_gains wide_rng wide_splitter (zip wide_X [4000, 6000]))) [0..<13]
     = [2000000, 4000000, 6000000, 8000000, 10000000, 12000000, 14000000, 16000000, 18000000,
        20000000, 22000000, 24000000, 26000000]"
  unfolding wide_gains by (simp add: feature_gain_def upt_rec [of 0] upt_rec [of "Suc _"])

lemma wide_X_shape: "wide_X \<noteq> []" "length wide_X = 2" "length (hd wide_X) = 13"
  by (simp_all add: wide_X_def)

lemma wide_fit_model:
  "Pipeline_fit wide_rng wide_splitter wide_rows [4000, 6000] = Inr wide_model"
  by (simp add: Pipeline_fit_def wide_fit wide_transform RandomForestRegressor_fit_def
      wide_X_shape wide_raw normalize_scores_def wide_model_def)

lemma trained_feature_importance_loaded:
  "Pipeline_fit rng splitter X_train y_train = Inr m \<Longrightarrow>
     trained_feature_importance rng splitter X_train y_train = get_feature_importance (loaded m)"
  by (simp add: trained_feature_importance_def TrafficVolumePredictor_init_def loaded_def)

lemma wide_series_eval: "feature_importance_series (loaded wide_model) = Inr wide_series"
  by (simp add: feature_importance_series_def get_feature_names_out_def loaded_def wide_model_def
      wide_preprocessor_def categorical_features_def numeric_features_def wide_series_def)

lemma wide_top_eval: "get_feature_importance (loaded wide_model) = Inr wide_top"
  by (simp add: get_feature_importance_def wide_series_eval)
     (simp add: wide_series_def wide_top_def sort_values_descending_def)

lemma sum_list_zeros: "\<forall>x \<in> set xs. x = (0 :: real) \<Longrightarrow> sum_list xs = 0"
  by (induction xs) auto

lemma sse_constant: "\<forall>y \<in> set ys. y = c \<Longrightarrow> sse ys = 0"
proof (cases "ys = []")
  case True
  then show ?thesis by (simp add: sse_def)
next
  case False
  assume "\<forall>y \<in> set ys. y = c"
  then have ys: "ys = replicate (length ys) c" by (rule constant_column)
  have "mean (replicate (length ys) c) = c"
    using False by (simp add: replicate_mean)
  then have "sse (replicate (length ys) c) = 0"
    by (simp add: sse_def sum_list_replicate)
  then show ?thesis by (subst ys)
qed

lemma constant_target_gains:
  "\<forall>s \<in> set S. snd s = c \<Longrightarrow> \<forall>g \<in> set (split_gains splitter S). snd g = 0"
proof (induction splitter S rule: split_gains.induct)
  case (1 splitter S)
  show ?case
  proof (cases "splitter S")
    case None
    then show ?thesis by (subst split_gains.simps) simp
  next
    case (Some ft)
    obtain f t where ft: "ft = (f, t)" by (cases ft)
    let ?L = "filter (goes_left f t) S" and ?R = "filter (\<lambda>s. \<not> goes_left f t s) S"
    show ?thesis
    proof (cases "(\<forall>s \<in> set S. f < length (fst s)) \<and> ?L \<noteq> [] \<and> ?R \<noteq> []")
      case True
      have "sse (map snd S) = 0" "sse (map snd ?L) = 0" "sse (map snd ?R) = 0"
        using "1.prems" by (auto intro!: sse_constant [where c = c])
      moreover have "\<forall>g \<in> set (split_gains splitter ?L). snd g = 0"
        using True "1.prems" by (intro "1.IH"(1) [OF Some ft [symmetric]]) auto
      moreover have "\<forall>g \<in> set (split_gains splitter ?R). snd g = 0"
        using True "1.prems" by (intro "1.IH"(2) [OF Some ft [symmetric]]) auto
      ultimately show ?thesis
        using True Some ft by (subst split_gains.simps) auto
    next
      case False
      then show ?thesis using Some ft by (subst split_gains.simps) auto
    qed
  qed
qed

lemma constant_target_importances:
  assumes "RandomForestRegressor_fit rng splitter X y = Inr rf" and "\<forall>t \<in> set y. t = c"
  shows "feature_importances rf = replicate (length (hd X)) 0"
proof -
  note t = trained_importances [OF assms(1)]
  let ?S = "zip X y"
  have S: "?S \<noteq> []" using t(1,2) by (cases X; cases y) auto
  have tgt: "\<forall>s \<in> set ?S. snd s = c"
    using assms(2) by (auto dest: set_zip_rightD)
  have "\<forall>g \<in> set (split_gains (splitter i) (bootstrap rng i ?S)). snd g = 0" for i
    using bootstrap_subset [OF S] tgt by (intro constant_target_gains [where c = c]) blast
  then have zero: "\<forall>g \<in> set (forest_gains rng splitter ?S). snd g = 0"
    by (auto simp: forest_gains_def)
  have "feature_gain (forest_gains rng splitter ?S) j = 0" for j
    using zero unfolding feature_gain_def by (intro sum_list_zeros) auto
  then have "map (feature_gain (forest_gains rng splitter ?S)) [0..<length (hd X)]
      = replicate (length (hd X)) 0"
    by (intro nth_equalityI) simp_all
  then show ?thesis
    by (simp add: t(3) normalize_scores_def)
qed

lemma list_all2_hd: "list_all2 P xs ys \<Longrightarrow> ys \<noteq> [] \<Longrightarrow> P (hd xs) (hd ys)"
  by (cases xs; cases ys) auto

lemma constant_run_top:
  "trained_feature_importance example_rng example_splitter train_rows [5000, 5000] = Inr zero_top"
proof -
  have a: "train_rows \<noteq> []" and b: "length [5000, 5000 :: real] = length train_rows"
    and c: "\<forall>y \<in> set [5000, 5000 :: real]. y = 5000"
    by (simp_all add: train_rows_def)
  from Pipeline_fit_total [OF a train_rows_usable b] obtain m
    where m: "Pipeline_fit example_rng example_splitter train_rows [5000, 5000] = Inr m" ..
  from m obtain X where ct: "ColumnTransformer_fit train_rows = Inr (preprocessor m)"
    and X: "collect (ColumnTransformer_transform (preprocessor m)) train_rows = Inr X"
    and rf: "RandomForestRegressor_fit example_rng example_splitter X [5000, 5000] = Inr (regressor m)"
    by (rule Pipeline_fit_Inr)
  have pm: "preprocessor m = train_preprocessor"
    using ct train_fit by simp
  have "X \<noteq> []" using trained_importances(1) [OF rf] .
  moreover have "list_all2 (\<lambda>r x. ColumnTransformer_transform (preprocessor m) r = Inr x) train_rows X"
    using X by (simp add: collect_Inr_iff)
  ultimately have "ColumnTransformer_transform (preprocessor m) (hd train_rows) = Inr (hd X)"
    by (rule list_all2_hd [rotated])
  then have "length (hd X) = 11"
    using fit_transform_length [OF ct] by (simp add: pm train_preprocessor_def numeric_features_def)
  then have "feature_importances (regressor m) = replicate 11 0"
    using constant_target_importances [OF rf c] by simp
  then have imps: "feature_importances (regressor m) = [0, 0, 0, 0, 0, 0, 0, 0, 0, 0, 0]"
    by (simp add: eval_nat_numeral)
  have "feature_importance_series (loaded m) = Inr (zero_top @ [(OneHot ''day_of_week'' (Num 5), 0)])"
    by (simp add: feature_importance_series_def get_feature_names_out_def loaded_def pm imps
        train_preprocessor_def categorical_features_def numeric_features_def zero_top_def)
  then have "get_feature_importance (loaded m) = Inr zero_top"
    by (simp add: get_feature_importance_def) (simp add: zero_top_def sort_values_descending_def)
  then show ?thesis
    using trained_feature_importance_loaded [OF m] by simp
qed

text \<open>
  C5. The claim wants the scores returned by \<open>get_feature_importance\<close> to sum to 1 for
  every trained model. The function returns the ten highest scores only: after the
  training run with thirteen columns, all of positive importance, the returned scores
  sum to 85/91. And after training on equal targets no split reduces the error, every
  importance is 0 and the returned scores sum to 0.
\<close>

theorem importance_sum_counterexample:
  "trained_feature_importance wide_rng wide_splitter wide_rows [4000, 6000] = Inr wide_top
   \<and> total_score wide_top = 85 / 91
   \<and> trained_feature_importance example_rng example_splitter train_rows [5000, 5000] = Inr zero_top
   \<and> total_score zero_top = 0"
proof -
  have "trained_feature_importance wide_rng wide_splitter wide_rows [4000, 6000] = Inr wide_top"
    using trained_feature_importance_loaded [OF wide_fit_model] wide_top_eval by simp
  moreover have "total_score wide_top = 85 / 91"
    by (simp add: total_score_def wide_top_def)
  moreover have "total_score zero_top = 0"
    by (simp add: total_score_def zero_top_def)
  ultimately show ?thesis
    using constant_run_top by simp
qed

theorem ten_highest_importances_witness:
  "Pipeline_fit wide_rng wide_splitter wide_rows [4000, 6000] = Inr wide_model
   \<and> feature_importance_series (loaded wide_model) = Inr wide_series
   \<and> get_feature_importance (loaded wide_model) = Inr wide_top
   \<and> total_score wide_series = 1
   \<and> total_score wide_top = 85 / 91
   \<and> (\<exists>rest. mset (wide_top @ rest) = mset wide_series \<and> length rest = 3
          \<and> total_score rest = 6 / 91)"
proof -
  have self: "model (loaded wide_model) = wide_model"
    by (simp add: loaded_def)
  from ten_highest_importances [OF wide_fit_model self]
  obtain series top rest
    where series: "feature_importance_series (loaded wide_model) = Inr series"
      and top: "get_feature_importance (loaded wide_model) = Inr top"
      and perm: "mset (top @ rest) = mset series"
      and diff: "total_score top = total_score series - total_score rest"
    by blast
  have s: "series = wide_series" using series wide_series_eval by simp
  have t: "top = wide_top" using top wide_top_eval by simp
  have all: "total_score wide_series = 1"
    by (simp add: total_score_def wide_series_def)
  have ten: "total_score wide_top = 85 / 91"
    by (simp add: total_score_def wide_top_def)
  have "length (wide_top @ rest) = length wide_series"
    using perm unfolding s t by (rule mset_eq_length)
  then have three: "length rest = 3"
    by (simp add: wide_top_def wide_series_def)
  have "total_score rest = 6 / 91"
    using diff all ten unfolding s t by simp
  with perm three have "\<exists>rest. mset (wide_top @ rest) = mset wide_series \<and> length rest = 3
          \<and> total_score rest = 6 / 91"
    unfolding s t by blast
  with wide_fit_model wide_series_eval wide_top_eval all ten show ?thesis
    by (intro conjI)
qed

end
